theory Spec2Isabelle
  imports
    Main
    "HOL-Library.Word"
    "HOL-Library.Signed_Division"
    "HOL-Library.Char_ord"
    "HOL-Library.List_Lexorder"
    "HOL-Library.Product_Lexorder"
    "HOL-Library.Sublist"
begin

unbundle bit_operations_syntax

section \<open>Data model of the launcher (src/main.cpp)\<close>

text \<open>
  Paths and wide strings are modelled as \<open>string\<close>; two paths are equal when their
  strings are. \<open>Game\<close> is the struct of lines 49-52.
\<close>

type_synonym path = string

record Game =
  name :: string
  path :: path

subsection \<open>Comparison of paths\<close>

text \<open>
  A \<open>std::filesystem::path\<close> keeps the string it was made from, and \<open>==\<close>, \<open>\<noteq>\<close> and \<open><\<close>
  compare two paths part by part, not as strings: first the root names, then whether
  there is a root directory, then the file names of the relative part one after the
  other. Both slashes separate, and a run of separators counts as one. \<open>path_key\<close> is
  that decomposition: two paths are equal when their keys are, and ordered as their keys
  are in the lexicographic order. A file name that is a prefix of another comes first,
  and a trailing separator leaves an empty last name.
\<close>

definition sep :: char where "sep = CHR 0x5C"

definition is_slash :: "char \<Rightarrow> bool" where
  "is_slash c = (c = CHR ''/'' \<or> c = sep)"

definition is_letter :: "char \<Rightarrow> bool" where
  "is_letter c =
     ((65 \<le> (of_char c :: nat) \<and> (of_char c :: nat) \<le> 90) \<or>
      (97 \<le> (of_char c :: nat) \<and> (of_char c :: nat) \<le> 122))"

text \<open>
  The length of the root name on Windows: a drive letter with its colon; a device prefix
  (two separators and a question mark or a dot, or a separator and two question marks)
  before a single separator; two separators and a server name; otherwise none.
\<close>

definition root_name_length :: "path \<Rightarrow> nat" where
  "root_name_length p =
     (if length p < 2 then 0
      else if is_letter (p ! 0) \<and> p ! 1 = CHR '':'' then 2
      else if is_slash (p ! 0)
      then (if 4 \<le> length p \<and> is_slash (p ! 3) \<and>
               (if length p = 4 then True else \<not> is_slash (p ! 4)) \<and>
               ((is_slash (p ! 1) \<and> (p ! 2 = CHR ''?'' \<or> p ! 2 = CHR ''.'')) \<or>
                (p ! 1 = CHR ''?'' \<and> p ! 2 = CHR ''?''))
            then 3
            else if 3 \<le> length p \<and> is_slash (p ! 1) \<and> \<not> is_slash (p ! 2)
            then 3 + length (takeWhile (\<lambda>c. \<not> is_slash c) (drop 3 p))
            else 0)
      else 0)"

text \<open>
  The file names of a relative part: \<open>cur\<close> is the name being read, and \<open>after_slash\<close>
  says that the character before was a separator.
\<close>

fun elements_from :: "bool \<Rightarrow> string \<Rightarrow> string \<Rightarrow> string list" where
  "elements_from after_slash cur [] = [cur]"
| "elements_from after_slash cur (c # cs) =
     (if is_slash c
      then (if after_slash then elements_from True cur cs else cur # elements_from True [] cs)
      else elements_from False (cur @ [c]) cs)"

type_synonym path_key = "string \<times> bool \<times> string list"

definition path_key :: "path \<Rightarrow> path_key" where
  "path_key p =
     (let n = root_name_length p;
          rest = drop n p;
          relative = dropWhile is_slash rest
      in (take n p, rest \<noteq> relative,
          if relative = [] then [] else elements_from False [] relative))"

text \<open>
  \<open>std::unique\<close> on paths: of every run of neighbours that are equal as paths, the first
  is kept.
\<close>

fun unique_paths :: "path list \<Rightarrow> path list" where
  "unique_paths [] = []"
| "unique_paths [p] = [p]"
| "unique_paths (p # q # ps) =
     (if path_key p = path_key q then unique_paths (p # ps) else p # unique_paths (q # ps))"

subsection \<open>Machine integers\<close>

text \<open>
  The value of an \<open>int\<close> after an addition: 32 bits in two's complement, overflow taken to
  wrap as it does on the target.
\<close>

definition int32 :: "int \<Rightarrow> int" where
  "int32 x = (x + 2147483648) mod 4294967296 - 2147483648"

datatype AppState = GameList | Settings | Running

datatype SettingsTab = General | System | Graphics | Audio | Network

text \<open>The casts \<open>(int)g_CurrentTab\<close> and \<open>(SettingsTab)t\<close> of lines 585-590.\<close>

fun tab_to_int :: "SettingsTab \<Rightarrow> int" where
  "tab_to_int General = 0"
| "tab_to_int System = 1"
| "tab_to_int Graphics = 2"
| "tab_to_int Audio = 3"
| "tab_to_int Network = 4"

definition tab_of_int :: "int \<Rightarrow> SettingsTab" where
  "tab_of_int t =
     (if t = 0 then General else if t = 1 then System else if t = 2 then Graphics
      else if t = 3 then Audio else Network)"

text \<open>
  Modelled from the spec: \<open>Settings::values\<close> and its accessors, whose header
  common/settings.h is missing. As section 4.4 of the specification has it, \<open>SetValue\<close>
  stores the value of the cast unchanged (no clamping) and \<open>GetValue\<close> returns it, so the
  enumerated fields are kept as the \<open>int\<close> the code casts them to and from. The last three
  fields are the engine options written by StartGame.
\<close>

record Values =
  language_index :: int
  region_index :: int
  custom_rtc_enabled :: bool
  use_multi_core :: bool
  memory_layout_mode :: int
  renderer_backend_D3D12 :: bool
  use_disk_shader_cache :: bool
  use_asynchronous_gpu_emulation :: bool

text \<open>
  Modelled from the spec: the two enumerators of \<open>Settings::MemoryLayout\<close> that the code
  names (common/settings.h is missing); the file stores them as \<open>MemoryLayout=0\<close> and
  \<open>MemoryLayout=1\<close>.
\<close>

definition Memory_4Gb :: int where "Memory_4Gb = 0"
definition Memory_6Gb :: int where "Memory_6Gb = 1"

text \<open>The global state, lines 69-79 and 105-106, with \<open>Settings::values\<close>.\<close>

record launcher =
  g_IsEditingSetting :: bool
  g_AppState :: AppState
  g_CurrentTab :: SettingsTab
  g_IsInstalling :: bool
  g_InstallStatus :: string
  g_UserGamePaths :: "path list"
  g_Games :: "Game list"
  g_SelectedGameIndex :: int
  g_SelectedSettingIndex :: int
  g_NextInputTime :: "64 word"
  g_LastInputMask :: "16 word"
  g_EmuWindow :: bool
  g_System :: bool
  Settings_values :: Values

section \<open>The world outside the process\<close>

text \<open>
  A directory entry as \<open>recursive_directory_iterator\<close> reports it: a regular file, a
  directory with its entries in traversal order, an entry of another kind, or a directory
  that cannot be opened (the iterator throws when it descends into it).
\<close>

datatype fs_entry =
    RegularFile string
  | Directory string "fs_entry list"
  | OtherEntry string
  | Unreadable string

datatype fs_node = FileAt | DirAt "fs_entry list"

type_synonym filesystem = "(path \<times> fs_node) list"

datatype engine_outcome = LoadSuccess | LoadFailure int | EngineThrows string

text \<open>One controller slot: \<open>sThumbLY\<close> and \<open>wButtons\<close> of \<open>XINPUT_GAMEPAD\<close>.\<close>

record gamepad =
  sThumbLY :: "16 word"
  wButtons :: "16 word"

text \<open>
  What one call of HandleInput reads from outside: the tick counter, the four controller
  slots (\<open>None\<close>: not connected), the file system, the user directory, whether the
  configuration file opens for writing, the folder the picker returns (\<open>None\<close>: cancelled
  or failed) and what the engine does with a title. \<open>GetUserDirectory\<close> of the source also
  creates the data directories that are missing; the file system here is the one it leaves.
\<close>

record env =
  GetTickCount64 :: "64 word"
  XInputGetState :: "nat \<Rightarrow> gamepad option"
  fs :: filesystem
  GetUserDirectory :: path
  config_writable :: bool
  picked_folder :: "path option"
  engine :: engine_outcome

text \<open>What the process does to the outside.\<close>

datatype effect =
    MessageBoxW string string
  | WriteConfig string
  | StartThread path path

datatype fault = VectorIndexOutOfRange | UncaughtFilesystemError

section \<open>Input repeat decoder (HandleInput, lines 521-562)\<close>

record buttons =
  up :: bool
  down :: bool
  lb :: bool
  rb :: bool
  a_btn :: bool
  b_btn :: bool
  start :: bool

definition INPUT_DEADZONE :: int where "INPUT_DEADZONE = 8000"

definition XINPUT_GAMEPAD_DPAD_UP :: "16 word" where "XINPUT_GAMEPAD_DPAD_UP = 0x0001"
definition XINPUT_GAMEPAD_DPAD_DOWN :: "16 word" where "XINPUT_GAMEPAD_DPAD_DOWN = 0x0002"
definition XINPUT_GAMEPAD_START :: "16 word" where "XINPUT_GAMEPAD_START = 0x0010"
definition XINPUT_GAMEPAD_LEFT_SHOULDER :: "16 word" where "XINPUT_GAMEPAD_LEFT_SHOULDER = 0x0100"
definition XINPUT_GAMEPAD_RIGHT_SHOULDER :: "16 word" where "XINPUT_GAMEPAD_RIGHT_SHOULDER = 0x0200"
definition XINPUT_GAMEPAD_A :: "16 word" where "XINPUT_GAMEPAD_A = 0x1000"
definition XINPUT_GAMEPAD_B :: "16 word" where "XINPUT_GAMEPAD_B = 0x2000"

definition no_buttons :: buttons where
  "no_buttons = \<lparr>up = False, down = False, lb = False, rb = False,
                  a_btn = False, b_btn = False, start = False\<rparr>"

text \<open>The body of the loop over the controller slots, lines 527-538.\<close>

definition poll_slot :: "gamepad option \<Rightarrow> buttons \<times> bool \<Rightarrow> buttons \<times> bool" where
  "poll_slot slot acc =
     (case slot of
        None \<Rightarrow> acc
      | Some pad \<Rightarrow>
          (let b = fst acc; ly = sint (sThumbLY pad); btns = wButtons pad in
           (\<lparr>up = (up b \<or> btns AND XINPUT_GAMEPAD_DPAD_UP \<noteq> 0 \<or> ly > INPUT_DEADZONE),
             down = (down b \<or> btns AND XINPUT_GAMEPAD_DPAD_DOWN \<noteq> 0 \<or> ly < - INPUT_DEADZONE),
             lb = (lb b \<or> btns AND XINPUT_GAMEPAD_LEFT_SHOULDER \<noteq> 0),
             rb = (rb b \<or> btns AND XINPUT_GAMEPAD_RIGHT_SHOULDER \<noteq> 0),
             a_btn = (a_btn b \<or> btns AND XINPUT_GAMEPAD_A \<noteq> 0),
             b_btn = (b_btn b \<or> btns AND XINPUT_GAMEPAD_B \<noteq> 0),
             start = (start b \<or> btns AND XINPUT_GAMEPAD_START \<noteq> 0)\<rparr>, True)))"

definition MAX_CONTROLLERS :: nat where "MAX_CONTROLLERS = 4"

definition PollControllers :: "env \<Rightarrow> buttons \<times> bool" where
  "PollControllers e =
     foldl (\<lambda>acc i. poll_slot (XInputGetState e i) acc) (no_buttons, False) [0, 1, 2, 3]"

text \<open>\<open>currentMask\<close>, lines 541-548.\<close>

definition currentMask :: "buttons \<Rightarrow> 16 word" where
  "currentMask b =
     (if up b then 1 else 0) OR (if down b then 2 else 0) OR (if lb b then 4 else 0) OR
     (if rb b then 8 else 0) OR (if a_btn b then 16 else 0) OR (if b_btn b then 32 else 0) OR
     (if start b then 64 else 0)"

text \<open>
  Lines 550-560: whether this tick executes, and the decoder state after it. The tick
  counter is a \<open>ULONGLONG\<close>, so \<open>currentTime + 400\<close> wraps at \<open>2 ^ 64\<close>.
\<close>

definition Decode :: "16 word \<Rightarrow> 64 word \<Rightarrow> launcher \<Rightarrow> bool \<times> launcher" where
  "Decode cm currentTime s =
     (let r = (if cm \<noteq> 0 then
                 (if cm \<noteq> g_LastInputMask s
                  then (True, s\<lparr>g_NextInputTime := currentTime + 400\<rparr>)
                  else if currentTime \<ge> g_NextInputTime s
                  then (True, s\<lparr>g_NextInputTime := currentTime + 50\<rparr>)
                  else (False, s))
               else (False, s))
      in (fst r, (snd r)\<lparr>g_LastInputMask := cm\<rparr>))"

section \<open>Configuration store (lines 110-117 and 203-256)\<close>

definition is_blank :: "char \<Rightarrow> bool" where
  "is_blank c = (c = CHR '' '' \<or> c = CHR 0x09 \<or> c = CHR 0x0D \<or> c = CHR 0x0A)"

text \<open>\<open>Trim\<close>: \<open>start\<close> runs over the blanks at the front, \<open>end\<close> back over those at the end.\<close>

definition Trim :: "string \<Rightarrow> string" where
  "Trim s = rev (dropWhile is_blank (rev (dropWhile is_blank s)))"

definition endl :: string where "endl = [CHR 0x0A]"

text \<open>\<open>file << (int) x\<close>: the decimal digits, with a minus sign for a negative value.\<close>

definition digit_char :: "nat \<Rightarrow> char" where
  "digit_char d = char_of (of_char (CHR ''0'') + d)"

fun digits :: "nat \<Rightarrow> string" where
  "digits n = (if 10 \<le> n then digits (n div 10) @ [digit_char (n mod 10)] else [digit_char n])"

declare digits.simps [simp del]

definition show_int :: "int \<Rightarrow> string" where
  "show_int i = (if i < 0 then CHR ''-'' # digits (nat (- i)) else digits (nat i))"

definition INT_MAX :: int where "INT_MAX = 2147483647"
definition INT_MIN :: int where "INT_MIN = - 2147483648"

text \<open>
  \<open>_wtoi\<close> of the C runtime: white space, an optional sign, then digits up to the first
  character that is not one; 0 when there is no digit; \<open>INT_MAX\<close> or \<open>INT_MIN\<close> on overflow.
\<close>

definition iswspace :: "char \<Rightarrow> bool" where
  "iswspace c = (c = CHR '' '' \<or> (9 \<le> (of_char c :: nat) \<and> (of_char c :: nat) \<le> 13))"

definition iswdigit :: "char \<Rightarrow> bool" where
  "iswdigit c = (48 \<le> (of_char c :: nat) \<and> (of_char c :: nat) \<le> 57)"

fun digits_value :: "int \<Rightarrow> string \<Rightarrow> int" where
  "digits_value acc [] = acc"
| "digits_value acc (c # cs) =
     (if iswdigit c then digits_value (acc * 10 + (of_char c - 48)) cs else acc)"

definition wtoi :: "string \<Rightarrow> int" where
  "wtoi s =
     (let t = dropWhile iswspace s;
          neg = (t \<noteq> [] \<and> hd t = CHR ''-'');
          u = (if t \<noteq> [] \<and> (hd t = CHR ''-'' \<or> hd t = CHR ''+'') then tl t else t);
          v = digits_value 0 u
      in max INT_MIN (min INT_MAX (if neg then - v else v)))"

text \<open>
  What lines 209-217 and 222-224 write for the settings and the path list of a state.
\<close>

definition config_text :: "launcher \<Rightarrow> string" where
  "config_text s =
     (let v = Settings_values s
      in ''[System]'' @ endl @
         ''Language='' @ show_int (language_index v) @ endl @
         ''Region='' @ show_int (region_index v) @ endl @
         ''CustomRTC='' @ show_int (if custom_rtc_enabled v then 1 else 0) @ endl @
         ''MultiCore='' @ show_int (if use_multi_core v then 1 else 0) @ endl @
         ''MemoryLayout='' @ show_int (memory_layout_mode v) @ endl @
         endl @ ''[Paths]'' @ endl @
         concat (map (\<lambda>p. ''GamePath='' @ p @ endl) (g_UserGamePaths s)))"

text \<open>
  SaveSettings. The first argument says whether the stream opens; the file it writes is
  the effect \<open>WriteConfig\<close>. \<open>std::sort\<close> and \<open>std::unique\<close> rewrite the path list in place,
  after the open test and before the paths are written; they do not touch the settings.
  Both compare paths, not strings. \<open>std::sort\<close> leaves open in which order it puts paths
  that are equal; \<open>sort_key\<close> keeps them in the order they had.
\<close>

definition SaveSettings :: "bool \<Rightarrow> launcher \<Rightarrow> launcher \<times> effect list" where
  "SaveSettings is_open s =
     (if \<not> is_open then (s, [])
      else
        (let s' = s\<lparr>g_UserGamePaths := unique_paths (sort_key path_key (g_UserGamePaths s))\<rparr>
         in (s', [WriteConfig (config_text s')])))"

text \<open>
  The lines \<open>std::getline\<close> returns: the text is cut at each line feed, and what follows
  the last one is a line only when it is not empty.
\<close>

fun getlines :: "string \<Rightarrow> string \<Rightarrow> string list" where
  "getlines cur [] = (if cur = [] then [] else [cur])"
| "getlines cur (c # cs) =
     (if c = CHR 0x0A then cur # getlines [] cs else getlines (cur @ [c]) cs)"

text \<open>\<open>line.find(L'=')\<close>: the index of the first occurrence, \<open>None\<close> for \<open>npos\<close>.\<close>

definition find_char :: "char \<Rightarrow> string \<Rightarrow> nat option" where
  "find_char c s = (if c \<in> set s then Some (length (takeWhile (\<lambda>x. x \<noteq> c) s)) else None)"

text \<open>The body of the loop of LoadSettings, lines 237-253.\<close>

definition LoadLine :: "launcher \<Rightarrow> string \<Rightarrow> launcher" where
  "LoadLine s raw =
     (let line = Trim raw in
      if line = [] \<or> hd line = CHR ''['' then s
      else
        (case find_char (CHR ''='') line of
           None \<Rightarrow> s
         | Some eq \<Rightarrow>
             (let key = Trim (take eq line);
                  val = Trim (drop (eq + 1) line);
                  v = Settings_values s
              in if key = ''Language'' then s\<lparr>Settings_values := v\<lparr>language_index := wtoi val\<rparr>\<rparr>
                 else if key = ''Region'' then s\<lparr>Settings_values := v\<lparr>region_index := wtoi val\<rparr>\<rparr>
                 else if key = ''CustomRTC''
                   then s\<lparr>Settings_values := v\<lparr>custom_rtc_enabled := (wtoi val \<noteq> 0)\<rparr>\<rparr>
                 else if key = ''MultiCore''
                   then s\<lparr>Settings_values := v\<lparr>use_multi_core := (wtoi val \<noteq> 0)\<rparr>\<rparr>
                 else if key = ''MemoryLayout''
                   then s\<lparr>Settings_values := v\<lparr>memory_layout_mode := wtoi val\<rparr>\<rparr>
                 else if key = ''GamePath'' then s\<lparr>g_UserGamePaths := g_UserGamePaths s @ [val]\<rparr>
                 else s)))"

text \<open>LoadSettings. The argument is the text of the file, \<open>None\<close> when it does not open.\<close>

definition LoadSettings :: "string option \<Rightarrow> launcher \<Rightarrow> launcher" where
  "LoadSettings file s =
     (case file of
        None \<Rightarrow> s
      | Some text \<Rightarrow> foldl LoadLine (s\<lparr>g_UserGamePaths := []\<rparr>) (getlines [] text))"

section \<open>Library scanner (lines 153-188)\<close>

text \<open>\<open>operator/\<close> on paths: the preferred separator between the two parts.\<close>

definition path_append :: "path \<Rightarrow> string \<Rightarrow> path" where
  "path_append p q = p @ sep # q"

text \<open>
  \<open>fs::exists\<close>. The call can also throw on a status error, which nothing catches at lines
  161, 171 and 175; the file systems here answer every query.
\<close>

definition exists_path :: "filesystem \<Rightarrow> path \<Rightarrow> bool" where
  "exists_path f p = (map_of f p \<noteq> None)"

text \<open>
  \<open>path::extension\<close> of a file name: empty for \<open>.\<close> and \<open>..\<close>, for a name without a
  period and for a name whose only period is its first character; otherwise the part from
  the last period on.
\<close>

definition extension :: "string \<Rightarrow> string" where
  "extension f =
     (if f = ''.'' then [] else if f = ''..'' then []
      else if CHR ''.'' \<in> set f
      then (let e = CHR ''.'' # rev (takeWhile (\<lambda>c. c \<noteq> CHR ''.'') (rev f))
            in if e = f then [] else e)
      else [])"

text \<open>\<open>::tolower\<close> in the C locale.\<close>

definition tolower :: "char \<Rightarrow> char" where
  "tolower c =
     (if 65 \<le> (of_char c :: nat) \<and> (of_char c :: nat) \<le> 90 then char_of ((of_char c :: nat) + 32)
      else c)"

text \<open>The test of lines 179-181 on the file name of an entry.\<close>

definition is_game_file :: "string \<Rightarrow> bool" where
  "is_game_file n =
     (let ext = map tolower (extension n) in ext = ''.nsp'' \<or> ext = ''.xci'')"

text \<open>
  The loop of lines 177-185 over the entries below \<open>dir\<close>: the entries pushed, and whether
  the traversal came to its end (\<open>False\<close>: the iterator threw, which \<open>catch (...)\<close> swallows
  with the entries pushed so far kept).
\<close>

fun walk :: "path \<Rightarrow> fs_entry list \<Rightarrow> Game list \<times> bool" where
  "walk dir [] = ([], True)"
| "walk dir (RegularFile n # es) =
     (let r = walk dir es
      in ((if is_game_file n then [\<lparr>name = n, path = path_append dir n\<rparr>] else []) @ fst r, snd r))"
| "walk dir (Directory n sub # es) =
     (let r1 = walk (path_append dir n) sub
      in if snd r1 then (let r2 = walk dir es in (fst r1 @ fst r2, snd r2)) else (fst r1, False))"
| "walk dir (OtherEntry n # es) = walk dir es"
| "walk dir (Unreadable n # es) = ([], False)"

definition scan_path :: "filesystem \<Rightarrow> path \<Rightarrow> Game list" where
  "scan_path f p =
     (case map_of f p of
        None \<Rightarrow> []
      | Some FileAt \<Rightarrow> []
      | Some (DirAt es) \<Rightarrow> fst (walk p es))"

definition drive_letters :: string where
  "drive_letters = ''EFGHIJKLMNOPQRSTUVWXYZ''"

definition searchPaths :: "filesystem \<Rightarrow> path list \<Rightarrow> path list" where
  "searchPaths f user =
     (let fixed = [''D:'' @ sep # ''Games''];
          with_user =
            foldl (\<lambda>sp p. if exists_path f p
                           then (if list_ex (\<lambda>q. path_key q = path_key p) sp then sp
                                 else sp @ [p])
                           else sp)
              fixed user;
          drives = filter (exists_path f) (map (\<lambda>letter. letter # '':'' @ sep # ''Games'') drive_letters)
      in with_user @ drives)"

definition ScanGames :: "filesystem \<Rightarrow> launcher \<Rightarrow> launcher" where
  "ScanGames f s =
     s\<lparr>g_Games := concat (map (scan_path f) (searchPaths f (g_UserGamePaths s)))\<rparr>"

section \<open>Launch handoff (StartGame, lines 454-518)\<close>

fun entry_name :: "fs_entry \<Rightarrow> string" where
  "entry_name (RegularFile n) = n"
| "entry_name (Directory n sub) = n"
| "entry_name (OtherEntry n) = n"
| "entry_name (Unreadable n) = n"

definition keyPath :: "env \<Rightarrow> path" where
  "keyPath e = path_append (GetUserDirectory e) ''keys/prod.keys''"

definition nandPath :: "env \<Rightarrow> path" where
  "nandPath e = path_append (GetUserDirectory e) ''nand/system/Contents/registered''"

definition keys_message :: "env \<Rightarrow> string" where
  "keys_message e =
     ''prod.keys MISSING!'' @ endl @ ''Location:'' @ endl @ keyPath e @ endl @ endl @
     ''Please use Settings > Install Prod Keys''"

definition firmware_message :: "env \<Rightarrow> string" where
  "firmware_message e =
     ''Firmware MISSING!'' @ endl @ ''Location:'' @ endl @ nandPath e @ endl @ endl @
     ''Folder must contain .nca files.'' @ endl @ ''Please use Settings > Install Firmware''"

text \<open>
  Lines 467-475. \<open>directory_iterator\<close> is not recursive and the test looks at the name of
  every entry, whatever its kind.
\<close>

definition hasFirmware :: "fs_entry list \<Rightarrow> bool" where
  "hasFirmware es = list_ex (\<lambda>x. extension (entry_name x) = ''.nca'') es"

text \<open>
  Lines 482-517. An exception of the engine is taken to come from \<open>Initialize\<close> or \<open>Load\<close>,
  after the options have been written.
\<close>

definition boot :: "env \<Rightarrow> launcher \<Rightarrow> launcher \<times> effect list" where
  "boot e s =
     (let s1 = s\<lparr>g_System := True, g_EmuWindow := True,
                 Settings_values := (Settings_values s)
                   \<lparr>renderer_backend_D3D12 := True, use_disk_shader_cache := True,
                    use_asynchronous_gpu_emulation := True\<rparr>\<rparr>
      in case engine e of
           LoadSuccess \<Rightarrow> (s1\<lparr>g_AppState := Running\<rparr>, [])
         | LoadFailure code \<Rightarrow>
             (s1, [MessageBoxW (''Boot Failed Error Code: '' @ show_int code) ''Boot Error''])
         | EngineThrows what \<Rightarrow> (s1, [MessageBoxW (''Crash: '' @ what) ''Critical Error'']))"

text \<open>
  StartGame. The game entry is only handed to the engine. When the firmware path exists
  and is not a directory, \<open>directory_iterator\<close> throws outside the \<open>try\<close> block.
\<close>

definition StartGame :: "env \<Rightarrow> Game \<Rightarrow> launcher \<Rightarrow> fault + (launcher \<times> effect list)" where
  "StartGame e game s =
     (if \<not> exists_path (fs e) (keyPath e)
      then Inr (s, [MessageBoxW (keys_message e) ''Missing Files''])
      else
        (case map_of (fs e) (nandPath e) of
           Some FileAt \<Rightarrow> Inl UncaughtFilesystemError
         | Some (DirAt es) \<Rightarrow>
             (if hasFirmware es then Inr (boot e s)
              else Inr (s, [MessageBoxW (firmware_message e) ''Missing Files'']))
         | None \<Rightarrow> Inr (s, [MessageBoxW (firmware_message e) ''Missing Files''])))"

section \<open>Install and import workflow (lines 258-311)\<close>

text \<open>
  What the background task writes when it starts and when it ends (\<open>Some what\<close>: the copy
  threw).
\<close>

definition InstallFilesThread_start :: "launcher \<Rightarrow> launcher" where
  "InstallFilesThread_start s = s\<lparr>g_IsInstalling := True, g_InstallStatus := ''Copying files...''\<rparr>"

definition InstallFilesThread_finish :: "string option \<Rightarrow> launcher \<Rightarrow> launcher \<times> effect list" where
  "InstallFilesThread_finish thrown s =
     (case thrown of
        None \<Rightarrow>
          (s\<lparr>g_InstallStatus := ''Done!'', g_IsInstalling := False\<rparr>,
           [MessageBoxW ''Files Copied!'' ''Success''])
      | Some what \<Rightarrow>
          (s\<lparr>g_InstallStatus := ''Error!'', g_IsInstalling := False\<rparr>,
           [MessageBoxW (''Failed: '' @ what) ''Error'']))"

definition InstallFiles :: "env \<Rightarrow> string \<Rightarrow> path \<Rightarrow> launcher \<Rightarrow> launcher \<times> effect list" where
  "InstallFiles e title subPath s =
     (if g_IsInstalling s then (s, [])
      else
        (let dest_dir = path_append (GetUserDirectory e) subPath in
         case picked_folder e of
           None \<Rightarrow> (s, [])
         | Some source \<Rightarrow>
             (if title = ''Add Game Directory''
              then (let s1 = s\<lparr>g_UserGamePaths := g_UserGamePaths s @ [source]\<rparr>;
                        r = SaveSettings (config_writable e) s1
                    in (ScanGames (fs e) (fst r),
                        snd r @ [MessageBoxW ''Game Directory Saved!'' ''Citron'']))
              else (s, [StartThread source dest_dir]))))"

section \<open>Navigation state machine (HandleInput, lines 564-636)\<close>

definition row_limit :: "SettingsTab \<Rightarrow> int" where
  "row_limit t = (if t = System then 8 else if t = General then 5 else 0)"

text \<open>Lines 566-576, the library screen.\<close>

definition NavigateGameList ::
  "env \<Rightarrow> buttons \<Rightarrow> launcher \<Rightarrow> fault + (launcher \<times> effect list)" where
  "NavigateGameList e b s =
     (let s1 = (if start b
                then s\<lparr>g_AppState := Settings, g_CurrentTab := General,
                       g_SelectedSettingIndex := 0\<rparr>
                else s)
      in if g_Games s1 = [] then Inr (s1, [])
         else
           (let s2 = (if up b \<and> g_SelectedGameIndex s1 > 0
                      then s1\<lparr>g_SelectedGameIndex := g_SelectedGameIndex s1 - 1\<rparr> else s1);
                s3 = (if down b \<and> g_SelectedGameIndex s2 < int (length (g_Games s2)) - 1
                      then s2\<lparr>g_SelectedGameIndex := g_SelectedGameIndex s2 + 1\<rparr> else s2)
            in if a_btn b \<and> g_SelectedGameIndex s3 \<ge> 0
               then (if g_SelectedGameIndex s3 < int (length (g_Games s3))
                     then StartGame e (g_Games s3 ! nat (g_SelectedGameIndex s3)) s3
                     else Inl VectorIndexOutOfRange)
               else Inr (s3, [])))"

text \<open>Lines 597-607, the select button on a settings row.\<close>

definition SelectRow :: "env \<Rightarrow> launcher \<Rightarrow> launcher \<times> effect list" where
  "SelectRow e s =
     (if g_CurrentTab s = General
      then (let r0 = (if g_SelectedSettingIndex s = 0
                      then InstallFiles e ''Select Keys Folder'' ''keys'' s else (s, []));
                r1 = (if g_SelectedSettingIndex (fst r0) = 1
                      then InstallFiles e ''Select Firmware Folder''
                             ''nand/system/Contents/registered'' (fst r0)
                      else (fst r0, []));
                r2 = (if g_SelectedSettingIndex (fst r1) = 2
                      then InstallFiles e ''Add Game Directory'' [] (fst r1) else (fst r1, []))
            in (fst r2, snd r0 @ snd r1 @ snd r2))
      else if g_CurrentTab s = System
      then (if g_SelectedSettingIndex s = 0 \<or> g_SelectedSettingIndex s = 1 \<or>
               g_SelectedSettingIndex s = 4 \<or> g_SelectedSettingIndex s = 6 \<or>
               g_SelectedSettingIndex s = 7
            then (s\<lparr>g_IsEditingSetting := True\<rparr>, []) else (s, []))
      else (s, []))"

text \<open>Lines 579-607, the settings screen outside edit mode.\<close>

definition NavigateSettings :: "env \<Rightarrow> buttons \<Rightarrow> launcher \<Rightarrow> launcher \<times> effect list" where
  "NavigateSettings e b s =
     (let r1 = (if b_btn b \<or> start b
                then SaveSettings (config_writable e) (s\<lparr>g_AppState := GameList\<rparr>) else (s, []));
          s1 = fst r1;
          s2 = (if lb b
                then (let t = tab_to_int (g_CurrentTab s1) - 1
                      in s1\<lparr>g_CurrentTab := tab_of_int (if t < 0 then 4 else t),
                             g_SelectedSettingIndex := 0\<rparr>)
                else s1);
          s3 = (if rb b
                then (let t = tab_to_int (g_CurrentTab s2) + 1
                      in s2\<lparr>g_CurrentTab := tab_of_int (if t > 4 then 0 else t),
                             g_SelectedSettingIndex := 0\<rparr>)
                else s2);
          limit = row_limit (g_CurrentTab s3);
          s4 = (if up b \<and> g_SelectedSettingIndex s3 > 0
                then s3\<lparr>g_SelectedSettingIndex := g_SelectedSettingIndex s3 - 1\<rparr> else s3);
          s5 = (if down b \<and> g_SelectedSettingIndex s4 < limit - 1
                then s4\<lparr>g_SelectedSettingIndex := g_SelectedSettingIndex s4 + 1\<rparr> else s4);
          r6 = (if a_btn b then SelectRow e s5 else (s5, []))
      in (fst r6, snd r1 @ snd r6))"

text \<open>
  Lines 609-633, edit mode. \<open>%\<close> truncates towards zero (\<open>smod\<close>), and each of the two
  additions is one of \<open>int\<close>.
\<close>

definition EditSetting :: "buttons \<Rightarrow> launcher \<Rightarrow> launcher" where
  "EditSetting b s =
     (let s1 = (if b_btn b \<or> a_btn b then s\<lparr>g_IsEditingSetting := False\<rparr> else s);
          v = Settings_values s1;
          i = g_SelectedSettingIndex s1
      in if up b \<or> down b \<or> lb b \<or> rb b
         then (if i = 0
               then s1\<lparr>Settings_values := v\<lparr>language_index :=
                          int32 (int32 (language_index v + (if up b then 1 else - 1)) + 18)
                            smod 18\<rparr>\<rparr>
               else if i = 1
               then s1\<lparr>Settings_values := v\<lparr>region_index :=
                          int32 (int32 (region_index v + (if up b then 1 else - 1)) + 6)
                            smod 6\<rparr>\<rparr>
               else if i = 4
               then s1\<lparr>Settings_values := v\<lparr>custom_rtc_enabled := \<not> custom_rtc_enabled v\<rparr>\<rparr>
               else if i = 6
               then s1\<lparr>Settings_values := v\<lparr>use_multi_core := \<not> use_multi_core v\<rparr>\<rparr>
               else if i = 7
               then s1\<lparr>Settings_values := v\<lparr>memory_layout_mode :=
                          (if memory_layout_mode v = Memory_4Gb then Memory_6Gb else Memory_4Gb)\<rparr>\<rparr>
               else s1)
         else s1)"

definition Navigate :: "env \<Rightarrow> buttons \<Rightarrow> launcher \<Rightarrow> fault + (launcher \<times> effect list)" where
  "Navigate e b s =
     (if g_AppState s = GameList then NavigateGameList e b s
      else if g_AppState s = Settings
      then (if g_IsEditingSetting s then Inr (EditSetting b s, [])
            else Inr (NavigateSettings e b s))
      else Inr (s, []))"

text \<open>HandleInput: one tick of the idle loop.\<close>

definition HandleInput :: "env \<Rightarrow> launcher \<Rightarrow> fault + (launcher \<times> effect list)" where
  "HandleInput e s =
     (let p = PollControllers e;
          d = Decode (currentMask (fst p)) (GetTickCount64 e) s
      in if fst d then (if snd p then Navigate e (fst p) (snd d) else Inr (snd d, []))
         else Inr (snd d, []))"

section \<open>Runs of the launcher\<close>

text \<open>
  Between two ticks of the main thread the background task may write its flag and its
  status. A run stops at the first fault.
\<close>

datatype event = Tick env | ThreadStarts | ThreadFinishes "string option"

fun step :: "event \<Rightarrow> launcher \<Rightarrow> fault + launcher" where
  "step (Tick e) s = (case HandleInput e s of Inl f \<Rightarrow> Inl f | Inr r \<Rightarrow> Inr (fst r))"
| "step ThreadStarts s = Inr (InstallFilesThread_start s)"
| "step (ThreadFinishes thrown) s = Inr (fst (InstallFilesThread_finish thrown s))"

fun run :: "event list \<Rightarrow> launcher \<Rightarrow> fault + launcher" where
  "run [] s = Inr s"
| "run (ev # evs) s = (case step ev s of Inl f \<Rightarrow> Inl f | Inr s' \<Rightarrow> run evs s')"

section \<open>Concrete states and environments for the worked examples\<close>

text \<open>The initialisers of lines 69-79 around a given \<open>Settings::values\<close>.\<close>

definition startup :: "Values \<Rightarrow> launcher" where
  "startup v =
     \<lparr>g_IsEditingSetting = False, g_AppState = GameList, g_CurrentTab = General,
      g_IsInstalling = False, g_InstallStatus = [], g_UserGamePaths = [], g_Games = [],
      g_SelectedGameIndex = 0, g_SelectedSettingIndex = 0, g_NextInputTime = 0,
      g_LastInputMask = 0, g_EmuWindow = False, g_System = False, Settings_values = v\<rparr>"

definition example_values :: Values where
  "example_values =
     \<lparr>language_index = 1, region_index = 1, custom_rtc_enabled = False, use_multi_core = True,
      memory_layout_mode = 0, renderer_backend_D3D12 = False, use_disk_shader_cache = False,
      use_asynchronous_gpu_emulation = False\<rparr>"

text \<open>A tick at time \<open>t\<close> with one controller in slot 0 that holds the buttons \<open>w\<close>.\<close>

definition press :: "64 word \<Rightarrow> 16 word \<Rightarrow> filesystem \<Rightarrow> path option \<Rightarrow> env" where
  "press t w f picked =
     \<lparr>GetTickCount64 = t,
      XInputGetState = (\<lambda>i. if i = 0 then Some \<lparr>sThumbLY = 0, wButtons = w\<rparr> else None),
      fs = f, GetUserDirectory = ''user'', config_writable = True, picked_folder = picked,
      engine = LoadSuccess\<rparr>"

definition example_game :: Game where
  "example_game = \<lparr>name = ''a.nsp'', path = ''D:'' @ sep # ''Games'' @ sep # ''a.nsp''\<rparr>"

text \<open>A data root with the key file and an empty firmware directory.\<close>

definition keys_only_fs :: filesystem where
  "keys_only_fs =
     [(''user'' @ sep # ''keys/prod.keys'', FileAt),
      (''user'' @ sep # ''nand/system/Contents/registered'', DirAt [])]"

text \<open>The settings screen in edit mode on row \<open>r\<close> of the System tab.\<close>

definition editing_row :: "int \<Rightarrow> Values \<Rightarrow> launcher" where
  "editing_row r v =
     (startup v)\<lparr>g_AppState := Settings, g_CurrentTab := System,
        g_SelectedSettingIndex := r, g_IsEditingSetting := True\<rparr>"

definition two_games_fs :: filesystem where
  "two_games_fs =
     [(''D:'' @ sep # ''Games'', DirAt [RegularFile ''a.nsp'', RegularFile ''b.xci''])]"

definition one_game_fs :: filesystem where
  "one_game_fs = [(''D:'' @ sep # ''Games'', DirAt [RegularFile ''a.nsp''])]"

text \<open>The state after the first scan of \<open>two_games_fs\<close>.\<close>

definition two_games :: launcher where
  "two_games =
     (startup example_values)\<lparr>g_Games :=
        [\<lparr>name = ''a.nsp'', path = ''D:'' @ sep # ''Games'' @ sep # ''a.nsp''\<rparr>,
         \<lparr>name = ''b.xci'', path = ''D:'' @ sep # ''Games'' @ sep # ''b.xci''\<rparr>]\<rparr>"

text \<open>
  Down to the second game, into the settings, down to the row that adds a game directory,
  select it while one of the two files has disappeared, back to the library, launch.
\<close>

definition shrinking_run :: "event list" where
  "shrinking_run =
     [Tick (press 0 0x0002 two_games_fs None),
      Tick (press 16 0x0010 two_games_fs None),
      Tick (press 32 0x0002 two_games_fs None),
      Tick (press 48 0 two_games_fs None),
      Tick (press 64 0x0002 two_games_fs None),
      Tick (press 80 0x1000 one_game_fs (Some (''E:'' @ sep # ''Roms''))),
      Tick (press 96 0x2000 one_game_fs None),
      Tick (press 112 0x1000 one_game_fs None)]"

text \<open>
  A file system with the two games of the fixed search path, a third game in a folder of
  the user's, the key file and a firmware directory with one \<open>.nca\<close> file.
\<close>

definition grown_fs :: filesystem where
  "grown_fs =
     [(''D:'' @ sep # ''Games'', DirAt [RegularFile ''a.nsp'', RegularFile ''b.xci'']),
      (''E:'' @ sep # ''Roms'', DirAt [RegularFile ''c.NSP'']),
      (''user'' @ sep # ''keys/prod.keys'', FileAt),
      (''user'' @ sep # ''nand/system/Contents/registered'', DirAt [RegularFile ''fw.nca''])]"

text \<open>
  Down to the second game, into the settings, down to the row that adds a game directory,
  select it with the user's folder picked, back to the library, down to the third game,
  launch it.
\<close>

definition growing_run :: "event list" where
  "growing_run =
     [Tick (press 0 0x0002 two_games_fs None),
      Tick (press 16 0x0010 two_games_fs None),
      Tick (press 32 0x0002 two_games_fs None),
      Tick (press 48 0 two_games_fs None),
      Tick (press 64 0x0002 two_games_fs None),
      Tick (press 80 0x1000 grown_fs (Some (''E:'' @ sep # ''Roms''))),
      Tick (press 96 0x2000 grown_fs None),
      Tick (press 112 0x0002 grown_fs None),
      Tick (press 128 0x1000 grown_fs None)]"

text \<open>The state in which \<open>growing_run\<close> leaves \<open>two_games\<close>: the third game is running.\<close>

definition third_game_running :: launcher where
  "third_game_running =
     \<lparr>g_IsEditingSetting = False, g_AppState = Running, g_CurrentTab = General,
      g_IsInstalling = False, g_InstallStatus = [],
      g_UserGamePaths = [''E:'' @ sep # ''Roms''],
      g_Games =
        [\<lparr>name = ''a.nsp'', path = ''D:'' @ sep # ''Games'' @ sep # ''a.nsp''\<rparr>,
         \<lparr>name = ''b.xci'', path = ''D:'' @ sep # ''Games'' @ sep # ''b.xci''\<rparr>,
         \<lparr>name = ''c.NSP'', path = ''E:'' @ sep # ''Roms'' @ sep # ''c.NSP''\<rparr>],
      g_SelectedGameIndex = 2, g_SelectedSettingIndex = 2, g_NextInputTime = 528,
      g_LastInputMask = 16, g_EmuWindow = True, g_System = True,
      Settings_values =
        example_values\<lparr>renderer_backend_D3D12 := True, use_disk_shader_cache := True,
          use_asynchronous_gpu_emulation := True\<rparr>\<rparr>"

text \<open>A tick with the down button on the library screen.\<close>

definition down_run :: "event list" where
  "down_run = [Tick (press 0 0x0002 [] None)]"

text \<open>Into the settings, then one tab to the left: the Network tab.\<close>

definition placeholder_run :: "event list" where
  "placeholder_run =
     [Tick (press 0 0x0010 two_games_fs None), Tick (press 16 0x0100 two_games_fs None)]"

text \<open>Into the settings, down twice, back to the library.\<close>

definition leave_run :: "event list" where
  "leave_run =
     [Tick (press 0 0x0010 [] None), Tick (press 16 0x0002 [] None), Tick (press 32 0 [] None),
      Tick (press 48 0x0002 [] None), Tick (press 64 0x2000 [] None)]"

text \<open>A state whose only search path ends in a blank.\<close>

definition trailing_blank :: launcher where
  "trailing_blank =
     (startup example_values)\<lparr>g_UserGamePaths := [''E:'' @ sep # ''Roms '']\<rparr>"

text \<open>
  A state with settings away from \<open>example_values\<close> and three search paths, the last two
  equal as paths.
\<close>

definition configured :: launcher where
  "configured =
     (startup
        (example_values\<lparr>language_index := 17, region_index := 5, custom_rtc_enabled := True,
           use_multi_core := False, memory_layout_mode := 1\<rparr>))
       \<lparr>g_UserGamePaths := [''E:/Games-2'', ''E:/Games/x'', ''E://Games/x'']\<rparr>"

section \<open>Predicates of the properties\<close>

text \<open>
  The selected settings row is a row of the current tab, or row 0 on a tab without rows;
  the selected game is an entry of the list, or entry 0 of an empty list.
\<close>

definition row_ok :: "launcher \<Rightarrow> bool" where
  "row_ok s =
     (0 \<le> g_SelectedSettingIndex s \<and>
      g_SelectedSettingIndex s < max 1 (row_limit (g_CurrentTab s)))"

definition index_ok :: "launcher \<Rightarrow> bool" where
  "index_ok s =
     (0 \<le> g_SelectedGameIndex s \<and>
      g_SelectedGameIndex s < max 1 (int (length (g_Games s))))"

text \<open>No event of the run leaves a game list shorter than the one it found.\<close>

fun never_shrinks :: "event list \<Rightarrow> launcher \<Rightarrow> bool" where
  "never_shrinks [] s = True"
| "never_shrinks (ev # evs) s =
     (case step ev s of
        Inl f \<Rightarrow> True
      | Inr s' \<Rightarrow> length (g_Games s) \<le> length (g_Games s') \<and> never_shrinks evs s')"

text \<open>
  Which of the ticks at the times \<open>ts\<close> execute when the decoder sees the same mask \<open>m\<close> at
  each of them.
\<close>

fun fires :: "16 word \<Rightarrow> 64 word list \<Rightarrow> launcher \<Rightarrow> bool list" where
  "fires m [] s = []"
| "fires m (t # ts) s = fst (Decode m t s) # fires m ts (snd (Decode m t s))"

text \<open>Times, in ms, at which a mask first seen at time 0 is seen again.\<close>

definition held_times :: "64 word list" where
  "held_times = [16, 384, 400, 416, 448, 464, 512, 528]"

text \<open>
  The terms of the scanner's contract. A tree is readable when no directory in it fails to
  open. \<open>regular_files\<close> lists every regular file below \<open>dir\<close>, at any depth, in traversal
  order, as the entry the scanner would make of it.
\<close>

fun readable :: "fs_entry list \<Rightarrow> bool" where
  "readable [] = True"
| "readable (RegularFile n # es) = readable es"
| "readable (Directory n sub # es) = (readable sub \<and> readable es)"
| "readable (OtherEntry n # es) = readable es"
| "readable (Unreadable n # es) = False"

fun regular_files :: "path \<Rightarrow> fs_entry list \<Rightarrow> Game list" where
  "regular_files dir [] = []"
| "regular_files dir (RegularFile n # es) =
     \<lparr>name = n, path = path_append dir n\<rparr> # regular_files dir es"
| "regular_files dir (Directory n sub # es) =
     regular_files (path_append dir n) sub @ regular_files dir es"
| "regular_files dir (OtherEntry n # es) = regular_files dir es"
| "regular_files dir (Unreadable n # es) = regular_files dir es"

text \<open>
  Two characters are the same letter when they are equal or are the upper-case and the
  lower-case form of one ASCII letter; two strings are equal ignoring case when they are
  so character by character.
\<close>

definition is_upper :: "char \<Rightarrow> bool" where
  "is_upper c = (65 \<le> (of_char c :: nat) \<and> (of_char c :: nat) \<le> 90)"

definition same_letter :: "char \<Rightarrow> char \<Rightarrow> bool" where
  "same_letter x y =
     (x = y \<or> (is_upper x \<and> (of_char y :: nat) = of_char x + 32) \<or>
      (is_upper y \<and> (of_char x :: nat) = of_char y + 32))"

definition eq_ignoring_case :: "string \<Rightarrow> string \<Rightarrow> bool" where
  "eq_ignoring_case a b = list_all2 same_letter a b"

definition recognized :: "string \<Rightarrow> bool" where
  "recognized n =
     (eq_ignoring_case (extension n) ''.nsp'' \<or> eq_ignoring_case (extension n) ''.xci'')"

text \<open>The tree of the scanner's example, under the fixed search path.\<close>

definition example_tree :: "fs_entry list" where
  "example_tree =
     [RegularFile ''a.nsp'', RegularFile ''b.NSP'', RegularFile ''c.txt'',
      Directory ''sub'' [RegularFile ''d.xci'']]"

definition example_tree_fs :: filesystem where
  "example_tree_fs = [(''D:'' @ sep # ''Games'', DirAt example_tree)]"

section \<open>Verified properties\<close>

subsection \<open>Evaluation of concrete ticks\<close>

lemma poll_press:
  "PollControllers (press t w f p) =
     (\<lparr>up = (w AND 1 \<noteq> 0), down = (w AND 2 \<noteq> 0), lb = (w AND 0x100 \<noteq> 0),
       rb = (w AND 0x200 \<noteq> 0), a_btn = (w AND 0x1000 \<noteq> 0), b_btn = (w AND 0x2000 \<noteq> 0),
       start = (w AND 0x10 \<noteq> 0)\<rparr>, True)"
  by (simp add: PollControllers_def press_def poll_slot_def no_buttons_def Let_def
      XINPUT_GAMEPAD_DPAD_UP_def XINPUT_GAMEPAD_DPAD_DOWN_def XINPUT_GAMEPAD_START_def
      XINPUT_GAMEPAD_LEFT_SHOULDER_def XINPUT_GAMEPAD_RIGHT_SHOULDER_def XINPUT_GAMEPAD_A_def
      XINPUT_GAMEPAD_B_def INPUT_DEADZONE_def)

lemma press_sel:
  "GetTickCount64 (press t w f p) = t" "fs (press t w f p) = f"
  "GetUserDirectory (press t w f p) = ''user''" "config_writable (press t w f p) = True"
  "picked_folder (press t w f p) = p" "engine (press t w f p) = LoadSuccess"
  by (simp_all add: press_def)

lemmas tick_eval = poll_press press_sel HandleInput_def Decode_def currentMask_def Let_def
  Navigate_def NavigateGameList_def NavigateSettings_def SelectRow_def EditSetting_def
  row_limit_def tab_of_int_def

lemmas scan_eval = ScanGames_def searchPaths_def scan_path_def drive_letters_def
  exists_path_def sep_def is_game_file_def extension_def tolower_def path_append_def

lemmas path_eval = path_key_def root_name_length_def is_letter_def is_slash_def sep_def
  less_eq_prod_def less_prod_def

subsection \<open>Fields that the operations leave alone\<close>

lemma boot_keeps [simp]:
  "g_SelectedSettingIndex (fst (boot e s)) = g_SelectedSettingIndex s"
  "g_CurrentTab (fst (boot e s)) = g_CurrentTab s"
  "g_IsEditingSetting (fst (boot e s)) = g_IsEditingSetting s"
  "g_SelectedGameIndex (fst (boot e s)) = g_SelectedGameIndex s"
  "g_Games (fst (boot e s)) = g_Games s"
  "g_LastInputMask (fst (boot e s)) = g_LastInputMask s"
  "g_NextInputTime (fst (boot e s)) = g_NextInputTime s"
  by (cases "engine e"; simp add: boot_def Let_def)+

lemma StartGame_result:
  "StartGame e game s = Inr (s', effs) \<Longrightarrow> s' = s \<or> s' = fst (boot e s)"
  by (auto simp: StartGame_def split: if_splits option.splits fs_node.splits)

lemma StartGame_keeps:
  assumes "StartGame e game s = Inr (s', effs)"
  shows "g_SelectedSettingIndex s' = g_SelectedSettingIndex s"
    and "g_CurrentTab s' = g_CurrentTab s"
    and "g_IsEditingSetting s' = g_IsEditingSetting s"
    and "g_SelectedGameIndex s' = g_SelectedGameIndex s"
    and "g_Games s' = g_Games s"
    and "g_LastInputMask s' = g_LastInputMask s"
    and "g_NextInputTime s' = g_NextInputTime s"
  using StartGame_result [OF assms] by auto

lemma StartGame_no_index_fault: "StartGame e game s \<noteq> Inl VectorIndexOutOfRange"
  by (simp add: StartGame_def split: option.splits fs_node.splits)

lemma SaveSettings_keeps [simp]:
  "g_SelectedSettingIndex (fst (SaveSettings w s)) = g_SelectedSettingIndex s"
  "g_CurrentTab (fst (SaveSettings w s)) = g_CurrentTab s"
  "g_IsEditingSetting (fst (SaveSettings w s)) = g_IsEditingSetting s"
  "g_SelectedGameIndex (fst (SaveSettings w s)) = g_SelectedGameIndex s"
  "g_Games (fst (SaveSettings w s)) = g_Games s"
  "g_AppState (fst (SaveSettings w s)) = g_AppState s"
  "g_IsInstalling (fst (SaveSettings w s)) = g_IsInstalling s"
  "Settings_values (fst (SaveSettings w s)) = Settings_values s"
  "g_LastInputMask (fst (SaveSettings w s)) = g_LastInputMask s"
  "g_NextInputTime (fst (SaveSettings w s)) = g_NextInputTime s"
  by (simp_all add: SaveSettings_def Let_def)

lemma InstallFiles_keeps [simp]:
  "g_SelectedSettingIndex (fst (InstallFiles e title sub s)) = g_SelectedSettingIndex s"
  "g_CurrentTab (fst (InstallFiles e title sub s)) = g_CurrentTab s"
  "g_IsEditingSetting (fst (InstallFiles e title sub s)) = g_IsEditingSetting s"
  "g_SelectedGameIndex (fst (InstallFiles e title sub s)) = g_SelectedGameIndex s"
  "g_AppState (fst (InstallFiles e title sub s)) = g_AppState s"
  "g_LastInputMask (fst (InstallFiles e title sub s)) = g_LastInputMask s"
  "g_NextInputTime (fst (InstallFiles e title sub s)) = g_NextInputTime s"
  by (simp_all add: InstallFiles_def ScanGames_def Let_def split: option.splits)

lemma SelectRow_keeps [simp]:
  "g_SelectedSettingIndex (fst (SelectRow e s)) = g_SelectedSettingIndex s"
  "g_CurrentTab (fst (SelectRow e s)) = g_CurrentTab s"
  "g_SelectedGameIndex (fst (SelectRow e s)) = g_SelectedGameIndex s"
  "g_AppState (fst (SelectRow e s)) = g_AppState s"
  "g_LastInputMask (fst (SelectRow e s)) = g_LastInputMask s"
  "g_NextInputTime (fst (SelectRow e s)) = g_NextInputTime s"
  by (simp_all add: SelectRow_def Let_def)

lemma Decode_keeps [simp]:
  "g_SelectedSettingIndex (snd (Decode m t s)) = g_SelectedSettingIndex s"
  "g_CurrentTab (snd (Decode m t s)) = g_CurrentTab s"
  "g_IsEditingSetting (snd (Decode m t s)) = g_IsEditingSetting s"
  "g_SelectedGameIndex (snd (Decode m t s)) = g_SelectedGameIndex s"
  "g_Games (snd (Decode m t s)) = g_Games s"
  "g_AppState (snd (Decode m t s)) = g_AppState s"
  "Settings_values (snd (Decode m t s)) = Settings_values s"
  by (simp_all add: Decode_def Let_def)

lemma NavigateSettings_index [simp]:
  "g_SelectedGameIndex (fst (NavigateSettings e b s)) = g_SelectedGameIndex s"
  "g_LastInputMask (fst (NavigateSettings e b s)) = g_LastInputMask s"
  "g_NextInputTime (fst (NavigateSettings e b s)) = g_NextInputTime s"
  by (simp_all add: NavigateSettings_def Let_def)

lemma EditSetting_keeps [simp]:
  "g_SelectedSettingIndex (EditSetting b s) = g_SelectedSettingIndex s"
  "g_CurrentTab (EditSetting b s) = g_CurrentTab s"
  "g_SelectedGameIndex (EditSetting b s) = g_SelectedGameIndex s"
  "g_Games (EditSetting b s) = g_Games s"
  "g_LastInputMask (EditSetting b s) = g_LastInputMask s"
  "g_NextInputTime (EditSetting b s) = g_NextInputTime s"
  by (simp_all add: EditSetting_def Let_def)

text \<open>Without a connected controller no button is seen.\<close>

lemma poll_slot_connected:
  "(\<not> snd acc \<longrightarrow> fst acc = no_buttons) \<Longrightarrow>
   \<not> snd (poll_slot slot acc) \<longrightarrow> fst (poll_slot slot acc) = no_buttons"
  by (cases slot) (simp_all add: poll_slot_def Let_def)

lemma poll_connected:
  "\<not> snd (PollControllers e) \<longrightarrow> fst (PollControllers e) = no_buttons"
  unfolding PollControllers_def foldl.simps
  by (intro poll_slot_connected) simp


subsection \<open>Launch handoff\<close>

lemma keyPath_named: "sublist (keyPath e) (keys_message e)"
proof -
  have "keys_message e =
      (''prod.keys MISSING!'' @ endl @ ''Location:'' @ endl) @ keyPath e @
      (endl @ endl @ ''Please use Settings > Install Prod Keys'')"
    by (simp add: keys_message_def)
  then show ?thesis by (simp only: sublist_appendI)
qed

lemma nandPath_named: "sublist (nandPath e) (firmware_message e)"
proof -
  have "firmware_message e =
      (''Firmware MISSING!'' @ endl @ ''Location:'' @ endl) @ nandPath e @
      (endl @ endl @ ''Folder must contain .nca files.'' @ endl @
       ''Please use Settings > Install Firmware'')"
    by (simp add: firmware_message_def)
  then show ?thesis by (simp only: sublist_appendI)
qed

text \<open>
  Claim C7. When the key file does not exist, StartGame returns the state it was given and
  shows one message, which contains the key path. When the key file exists and the
  firmware directory is missing or holds no entry with the extension \<open>.nca\<close> (an empty
  directory included), it returns the state it was given and shows another message, which
  contains the firmware path. The two messages differ.
\<close>

theorem StartGame_blocked:
  "(\<not> exists_path (fs e) (keyPath e) \<longrightarrow>
      StartGame e game s = Inr (s, [MessageBoxW (keys_message e) ''Missing Files'']))
   \<and> (exists_path (fs e) (keyPath e) \<and>
       (map_of (fs e) (nandPath e) = None \<or>
        (\<exists>es. map_of (fs e) (nandPath e) = Some (DirAt es) \<and>
              (\<forall>x \<in> set es. extension (entry_name x) \<noteq> ''.nca''))) \<longrightarrow>
      StartGame e game s = Inr (s, [MessageBoxW (firmware_message e) ''Missing Files'']))
   \<and> sublist (keyPath e) (keys_message e)
   \<and> sublist (nandPath e) (firmware_message e)
   \<and> keys_message e \<noteq> firmware_message e"
proof (intro conjI impI)
  show "keys_message e \<noteq> firmware_message e"
    by (simp add: keys_message_def firmware_message_def)
qed (auto simp: StartGame_def hasFirmware_def list_ex_iff keyPath_named nandPath_named)

theorem StartGame_blocked_witness:
  "\<not> exists_path (fs (press 0 0 [] None)) (keyPath (press 0 0 [] None))
   \<and> StartGame (press 0 0 [] None) example_game (startup example_values) =
       Inr (startup example_values,
            [MessageBoxW (keys_message (press 0 0 [] None)) ''Missing Files''])
   \<and> exists_path (fs (press 0 0 keys_only_fs None)) (keyPath (press 0 0 keys_only_fs None))
   \<and> map_of (fs (press 0 0 keys_only_fs None)) (nandPath (press 0 0 keys_only_fs None)) =
       Some (DirAt [])
   \<and> StartGame (press 0 0 keys_only_fs None) example_game (startup example_values) =
       Inr (startup example_values,
            [MessageBoxW (firmware_message (press 0 0 keys_only_fs None)) ''Missing Files''])"
proof -
  have a: "\<not> exists_path (fs (press 0 0 [] None)) (keyPath (press 0 0 [] None))"
    by (simp add: press_def exists_path_def)
  have b: "exists_path (fs (press 0 0 keys_only_fs None)) (keyPath (press 0 0 keys_only_fs None))"
    by (simp add: press_def exists_path_def keys_only_fs_def keyPath_def path_append_def)
  have c: "map_of (fs (press 0 0 keys_only_fs None)) (nandPath (press 0 0 keys_only_fs None)) =
       Some (DirAt [])"
    by (simp add: press_def keys_only_fs_def nandPath_def path_append_def)
  from a b c
    StartGame_blocked [of "press 0 0 [] None" example_game "startup example_values"]
    StartGame_blocked [of "press 0 0 keys_only_fs None" example_game "startup example_values"]
  show ?thesis by simp
qed

subsection \<open>Install and import workflow\<close>

text \<open>
  Claim C8. While the in-flight flag is set, InstallFiles returns the state it was given,
  whatever the request, and has no effect outside: no dialog result is used, no file is
  written and no background task is started.
\<close>

theorem InstallFiles_in_flight:
  "g_IsInstalling s \<Longrightarrow> InstallFiles e title subPath s = (s, [])"
  by (simp add: InstallFiles_def)

theorem InstallFiles_in_flight_witness:
  "g_IsInstalling (InstallFilesThread_start (startup example_values))
   \<and> InstallFiles (press 0 0 [] (Some ''picked'')) ''Select Keys Folder'' ''keys''
         (InstallFilesThread_start (startup example_values)) =
       (InstallFilesThread_start (startup example_values), [])"
proof -
  have a: "g_IsInstalling (InstallFilesThread_start (startup example_values))"
    by (simp add: InstallFilesThread_start_def)
  from a InstallFiles_in_flight [OF a] show ?thesis by simp
qed

subsection \<open>Configuration store\<close>

text \<open>
  Claim C10. When the configuration file does not open, LoadSettings returns the state it
  was given: no setting changes and the search-path list is kept. The list is emptied
  once the file has opened, even when the file is empty.
\<close>

theorem LoadSettings_not_open:
  "LoadSettings None s = s \<and> LoadSettings (Some []) s = s\<lparr>g_UserGamePaths := []\<rparr>"
  by (simp add: LoadSettings_def)

theorem LoadSettings_not_open_witness:
  "LoadSettings None (startup example_values\<lparr>g_UserGamePaths := [''E:'' @ sep # ''Roms'']\<rparr>) =
     startup example_values\<lparr>g_UserGamePaths := [''E:'' @ sep # ''Roms'']\<rparr>"
  using LoadSettings_not_open [of "startup example_values\<lparr>g_UserGamePaths := [''E:'' @ sep # ''Roms'']\<rparr>"]
  by simp

subsection \<open>Navigation state machine: the selected row and the selected game\<close>

lemma tab_step_row: "row_ok (s\<lparr>g_CurrentTab := t, g_SelectedSettingIndex := 0\<rparr>)"
  by (simp add: row_ok_def)

lemma NavigateSettings_row:
  assumes "row_ok s"
  shows "row_ok (fst (NavigateSettings e b s))"
proof -
  define s1 where "s1 = fst (if b_btn b \<or> start b
                then SaveSettings (config_writable e) (s\<lparr>g_AppState := GameList\<rparr>) else (s, []))"
  define s2 where "s2 = (if lb b
                then s1\<lparr>g_CurrentTab := tab_of_int (if tab_to_int (g_CurrentTab s1) - 1 < 0
                         then 4 else tab_to_int (g_CurrentTab s1) - 1),
                       g_SelectedSettingIndex := 0\<rparr>
                else s1)"
  define s3 where "s3 = (if rb b
                then s2\<lparr>g_CurrentTab := tab_of_int (if tab_to_int (g_CurrentTab s2) + 1 > 4
                         then 0 else tab_to_int (g_CurrentTab s2) + 1),
                       g_SelectedSettingIndex := 0\<rparr>
                else s2)"
  define s4 where "s4 = (if up b \<and> g_SelectedSettingIndex s3 > 0
                then s3\<lparr>g_SelectedSettingIndex := g_SelectedSettingIndex s3 - 1\<rparr> else s3)"
  define s5 where "s5 = (if down b \<and> g_SelectedSettingIndex s4 < row_limit (g_CurrentTab s3) - 1
                then s4\<lparr>g_SelectedSettingIndex := g_SelectedSettingIndex s4 + 1\<rparr> else s4)"
  have nav: "fst (NavigateSettings e b s) = fst (if a_btn b then SelectRow e s5 else (s5, []))"
    unfolding NavigateSettings_def Let_def s1_def [symmetric] s2_def [symmetric]
      s3_def [symmetric] s4_def [symmetric] s5_def [symmetric] fst_conv by (rule refl)
  have "row_ok s1" using assms by (simp add: s1_def row_ok_def)
  then have "row_ok s2" by (simp add: s2_def tab_step_row)
  then have "row_ok s3" by (simp add: s3_def tab_step_row)
  then have "row_ok s4" and t4: "g_CurrentTab s4 = g_CurrentTab s3"
    by (auto simp: s4_def row_ok_def)
  then have "row_ok s5" by (auto simp: s5_def row_ok_def)
  then show ?thesis using nav by (simp add: row_ok_def)
qed

lemma NavigateGameList_inv:
  "(NavigateGameList e b s = Inr (s', effs) \<longrightarrow>
      (row_ok s \<longrightarrow> row_ok s') \<and> (index_ok s \<longrightarrow> index_ok s') \<and> g_Games s' = g_Games s \<and>
      g_IsEditingSetting s' = g_IsEditingSetting s \<and>
      g_LastInputMask s' = g_LastInputMask s \<and> g_NextInputTime s' = g_NextInputTime s \<and>
      (start b \<longrightarrow> g_SelectedSettingIndex s' = 0 \<and> g_CurrentTab s' = General))
   \<and> (index_ok s \<longrightarrow> NavigateGameList e b s \<noteq> Inl VectorIndexOutOfRange)"
proof -
  define s1 where "s1 = (if start b
                then s\<lparr>g_AppState := Settings, g_CurrentTab := General,
                       g_SelectedSettingIndex := 0\<rparr>
                else s)"
  define s2 where "s2 = (if up b \<and> g_SelectedGameIndex s1 > 0
                      then s1\<lparr>g_SelectedGameIndex := g_SelectedGameIndex s1 - 1\<rparr> else s1)"
  define s3 where "s3 = (if down b \<and> g_SelectedGameIndex s2 < int (length (g_Games s2)) - 1
                      then s2\<lparr>g_SelectedGameIndex := g_SelectedGameIndex s2 + 1\<rparr> else s2)"
  have nav: "NavigateGameList e b s =
     (if g_Games s1 = [] then Inr (s1, [])
      else if a_btn b \<and> g_SelectedGameIndex s3 \<ge> 0
               then (if g_SelectedGameIndex s3 < int (length (g_Games s3))
                     then StartGame e (g_Games s3 ! nat (g_SelectedGameIndex s3)) s3
                     else Inl VectorIndexOutOfRange)
               else Inr (s3, []))"
    unfolding NavigateGameList_def Let_def s1_def [symmetric] s2_def [symmetric]
      s3_def [symmetric] by (rule refl)
  have f1: "g_SelectedSettingIndex s1 = (if start b then 0 else g_SelectedSettingIndex s)"
    "g_CurrentTab s1 = (if start b then General else g_CurrentTab s)"
    "g_IsEditingSetting s1 = g_IsEditingSetting s" "g_Games s1 = g_Games s"
    "g_SelectedGameIndex s1 = g_SelectedGameIndex s"
    "g_LastInputMask s1 = g_LastInputMask s" "g_NextInputTime s1 = g_NextInputTime s"
    by (simp_all add: s1_def)
  have f3: "g_SelectedSettingIndex s3 = g_SelectedSettingIndex s1"
    "g_CurrentTab s3 = g_CurrentTab s1"
    "g_IsEditingSetting s3 = g_IsEditingSetting s1" "g_Games s3 = g_Games s1"
    "g_LastInputMask s3 = g_LastInputMask s1" "g_NextInputTime s3 = g_NextInputTime s1"
    by (simp_all add: s3_def s2_def)
  have r1: "row_ok s1" if "row_ok s"
    using that by (auto simp: row_ok_def row_limit_def s1_def)
  have r3: "row_ok s3" if "row_ok s"
    using r1 [OF that] f3 by (simp add: row_ok_def)
  have i1: "index_ok s1" if "index_ok s" using that f1 by (simp add: index_ok_def)
  have i2: "index_ok s2" if "index_ok s1" using that by (auto simp: index_ok_def s2_def)
  have i3: "index_ok s3" if "index_ok s"
    using i2 [OF i1 [OF that]] by (auto simp: index_ok_def s3_def)
  have out: "(row_ok s \<longrightarrow> row_ok s') \<and> (index_ok s \<longrightarrow> index_ok s') \<and> g_Games s' = g_Games s \<and>
      g_IsEditingSetting s' = g_IsEditingSetting s \<and>
      g_LastInputMask s' = g_LastInputMask s \<and> g_NextInputTime s' = g_NextInputTime s \<and>
      (start b \<longrightarrow> g_SelectedSettingIndex s' = 0 \<and> g_CurrentTab s' = General)"
    if "NavigateGameList e b s = Inr (s', effs)"
  proof -
    from that nav consider "s' = s1" | "s' = s3"
      | "StartGame e (g_Games s3 ! nat (g_SelectedGameIndex s3)) s3 = Inr (s', effs)"
      by (auto split: if_splits)
    then show ?thesis
    proof cases
      case 1
      with f1 r1 i1 show ?thesis by simp
    next
      case 2
      with f1 f3 r3 i3 show ?thesis by simp
    next
      case 3
      have "row_ok s'" if "row_ok s"
        using StartGame_keeps(1,2) [OF 3] r3 [OF that] by (simp add: row_ok_def)
      moreover have "index_ok s'" if "index_ok s"
        using StartGame_keeps(4,5) [OF 3] i3 [OF that] by (simp add: index_ok_def)
      ultimately show ?thesis
        using StartGame_keeps [OF 3] f1 f3 by simp
    qed
  qed
  have safe: "NavigateGameList e b s \<noteq> Inl VectorIndexOutOfRange" if "index_ok s"
  proof -
    have "g_SelectedGameIndex s3 < int (length (g_Games s3))" if "g_Games s1 \<noteq> []"
    proof -
      have "0 < length (g_Games s3)" using that f3(4) by simp
      then have "1 \<le> int (length (g_Games s3))" by linarith
      then have "max 1 (int (length (g_Games s3))) = int (length (g_Games s3))"
        by (rule max_absorb2)
      with i3 [OF \<open>index_ok s\<close>] show ?thesis by (simp add: index_ok_def)
    qed
    then show ?thesis
      using nav by (simp add: StartGame_no_index_fault)
  qed
  from out safe show ?thesis by blast
qed

lemma Navigate_inv:
  "(Navigate e b s = Inr (s', effs) \<longrightarrow>
      (row_ok s \<longrightarrow> row_ok s') \<and>
      (index_ok s \<and> length (g_Games s) \<le> length (g_Games s') \<longrightarrow> index_ok s'))
   \<and> (index_ok s \<longrightarrow> Navigate e b s \<noteq> Inl VectorIndexOutOfRange)"
proof (cases "g_AppState s")
  case GameList
  with NavigateGameList_inv [of e b s s' effs] show ?thesis
    by (simp add: Navigate_def)
next
  case Settings
  show ?thesis
  proof (cases "g_IsEditingSetting s")
    case True
    with Settings show ?thesis
      by (auto simp: Navigate_def row_ok_def index_ok_def)
  next
    case False
    with Settings have nav: "Navigate e b s = Inr (NavigateSettings e b s)"
      by (simp add: Navigate_def)
    have "index_ok (fst (NavigateSettings e b s))"
      if "index_ok s" "length (g_Games s) \<le> length (g_Games (fst (NavigateSettings e b s)))"
      using that by (auto simp: index_ok_def)
    with nav NavigateSettings_row [of s e b] show ?thesis by auto
  qed
next
  case Running
  then show ?thesis by (simp add: Navigate_def)
qed

lemma HandleInput_inv:
  "(HandleInput e s = Inr (s', effs) \<longrightarrow>
      (row_ok s \<longrightarrow> row_ok s') \<and>
      (index_ok s \<and> length (g_Games s) \<le> length (g_Games s') \<longrightarrow> index_ok s'))
   \<and> (index_ok s \<longrightarrow> HandleInput e s \<noteq> Inl VectorIndexOutOfRange)"
proof -
  define d where "d = snd (Decode (currentMask (fst (PollControllers e))) (GetTickCount64 e) s)"
  have d: "row_ok d = row_ok s" "index_ok d = index_ok s" "g_Games d = g_Games s"
    by (simp_all add: d_def row_ok_def index_ok_def)
  have "HandleInput e s = Navigate e (fst (PollControllers e)) d \<or> HandleInput e s = Inr (d, [])"
    by (simp add: HandleInput_def Let_def d_def)
  then show ?thesis
  proof
    assume "HandleInput e s = Navigate e (fst (PollControllers e)) d"
    with Navigate_inv [of e "fst (PollControllers e)" d s' effs] d show ?thesis by simp
  next
    assume "HandleInput e s = Inr (d, [])"
    with d show ?thesis by auto
  qed
qed

text \<open>Only the decoder writes the last mask and the armed time.\<close>

lemma Navigate_decoder:
  assumes "Navigate e b s = Inr (s', effs)"
  shows "g_LastInputMask s' = g_LastInputMask s \<and> g_NextInputTime s' = g_NextInputTime s"
proof (cases "g_AppState s")
  case GameList
  with assms NavigateGameList_inv [of e b s s' effs] show ?thesis
    by (simp add: Navigate_def)
next
  case Settings
  with assms have "s' = EditSetting b s \<or> s' = fst (NavigateSettings e b s)"
    by (cases "g_IsEditingSetting s") (auto simp: Navigate_def)
  then show ?thesis by auto
next
  case Running
  with assms show ?thesis by (auto simp: Navigate_def)
qed

lemma HandleInput_decoder:
  assumes "HandleInput e s = Inr (s', effs)"
  shows "g_LastInputMask s' =
           g_LastInputMask (snd (Decode (currentMask (fst (PollControllers e)))
             (GetTickCount64 e) s))
       \<and> g_NextInputTime s' =
           g_NextInputTime (snd (Decode (currentMask (fst (PollControllers e)))
             (GetTickCount64 e) s))"
proof -
  define d where "d = snd (Decode (currentMask (fst (PollControllers e))) (GetTickCount64 e) s)"
  have "HandleInput e s = Navigate e (fst (PollControllers e)) d \<or> HandleInput e s = Inr (d, [])"
    by (simp add: HandleInput_def Let_def d_def)
  then show ?thesis
  proof
    assume "HandleInput e s = Navigate e (fst (PollControllers e)) d"
    with assms Navigate_decoder [of e "fst (PollControllers e)" d s' effs] show ?thesis
      by (simp add: d_def)
  next
    assume "HandleInput e s = Inr (d, [])"
    with assms show ?thesis by (simp add: d_def)
  qed
qed

lemma step_inv:
  "(step ev s = Inr s' \<longrightarrow>
      (row_ok s \<longrightarrow> row_ok s') \<and>
      (index_ok s \<and> length (g_Games s) \<le> length (g_Games s') \<longrightarrow> index_ok s'))
   \<and> (index_ok s \<longrightarrow> step ev s \<noteq> Inl VectorIndexOutOfRange)"
proof (cases ev)
  case (Tick e)
  show ?thesis
  proof (cases "HandleInput e s")
    case (Inl f)
    with Tick HandleInput_inv [of e s] show ?thesis by auto
  next
    case (Inr r)
    with Tick HandleInput_inv [of e s "fst r" "snd r"] show ?thesis by auto
  qed
next
  case ThreadStarts
  then show ?thesis
    by (auto simp: InstallFilesThread_start_def row_ok_def index_ok_def)
next
  case (ThreadFinishes thrown)
  then show ?thesis
    by (auto simp: InstallFilesThread_finish_def row_ok_def index_ok_def split: option.splits)
qed

lemma run_row: "row_ok s \<Longrightarrow> run evs s = Inr s' \<Longrightarrow> row_ok s'"
proof (induction evs arbitrary: s)
  case Nil
  then show ?case by simp
next
  case (Cons ev evs)
  then show ?case
    using step_inv [of ev s] by (auto split: sum.splits)
qed

lemma run_index:
  "index_ok s \<Longrightarrow> never_shrinks evs s \<Longrightarrow>
   run evs s \<noteq> Inl VectorIndexOutOfRange \<and> (\<forall>s'. run evs s = Inr s' \<longrightarrow> index_ok s')"
proof (induction evs arbitrary: s)
  case Nil
  then show ?case by simp
next
  case (Cons ev evs)
  show ?case
  proof (cases "step ev s")
    case (Inl f)
    with Cons.prems step_inv [of ev s] show ?thesis by auto
  next
    case (Inr s1)
    with Cons.prems step_inv [of ev s s1] have "index_ok s1" "never_shrinks evs s1"
      by auto
    from Cons.IH [OF this] Inr show ?thesis by simp
  qed
qed

lemma row_ok_iff:
  "row_ok s \<longleftrightarrow>
     0 \<le> g_SelectedSettingIndex s \<and>
     (0 < row_limit (g_CurrentTab s) \<longrightarrow> g_SelectedSettingIndex s < row_limit (g_CurrentTab s)) \<and>
     (row_limit (g_CurrentTab s) = 0 \<longrightarrow> g_SelectedSettingIndex s = 0)"
  by (auto simp: row_ok_def row_limit_def)

lemma index_ok_iff:
  "index_ok s \<longleftrightarrow>
     0 \<le> g_SelectedGameIndex s \<and>
     (g_Games s \<noteq> [] \<longrightarrow> g_SelectedGameIndex s < int (length (g_Games s))) \<and>
     (g_Games s = [] \<longrightarrow> g_SelectedGameIndex s = 0)"
  by (cases "g_Games s") (auto simp: index_ok_def)

text \<open>
  Claim C1, as the code has it. From a state whose selected row and selected game are in
  range, after every run of ticks and background-task events: the selected settings row
  is never negative, is below the row count of the current tab on the tabs that have rows
  and is 0 on the tabs that have none. Along every run in which no event leaves the game
  list shorter than it found it, the selected game is never negative, is below the number
  of games whenever the list is not empty and is 0 when the list is empty, and no tick
  reads the list outside its bounds.
\<close>

theorem selection_in_range:
  assumes "row_ok s"
  shows "(\<forall>s'. run evs s = Inr s' \<longrightarrow>
            0 \<le> g_SelectedSettingIndex s' \<and>
            (0 < row_limit (g_CurrentTab s') \<longrightarrow>
               g_SelectedSettingIndex s' < row_limit (g_CurrentTab s')) \<and>
            (row_limit (g_CurrentTab s') = 0 \<longrightarrow> g_SelectedSettingIndex s' = 0))
       \<and> (index_ok s \<and> never_shrinks evs s \<longrightarrow>
            run evs s \<noteq> Inl VectorIndexOutOfRange \<and>
            (\<forall>s'. run evs s = Inr s' \<longrightarrow>
               0 \<le> g_SelectedGameIndex s' \<and>
               (g_Games s' \<noteq> [] \<longrightarrow> g_SelectedGameIndex s' < int (length (g_Games s'))) \<and>
               (g_Games s' = [] \<longrightarrow> g_SelectedGameIndex s' = 0)))"
proof (intro conjI allI impI)
  fix s' assume "run evs s = Inr s'"
  from run_row [OF assms this]
  show "0 \<le> g_SelectedSettingIndex s'"
    and "0 < row_limit (g_CurrentTab s') \<Longrightarrow>
           g_SelectedSettingIndex s' < row_limit (g_CurrentTab s')"
    and "row_limit (g_CurrentTab s') = 0 \<Longrightarrow> g_SelectedSettingIndex s' = 0"
    by (simp_all add: row_ok_iff)
next
  assume a: "index_ok s \<and> never_shrinks evs s"
  then show "run evs s \<noteq> Inl VectorIndexOutOfRange"
    using run_index [of s evs] by simp
  fix s' assume "run evs s = Inr s'"
  with a run_index [of s evs] have "index_ok s'" by simp
  then show "0 \<le> g_SelectedGameIndex s'"
    and "g_Games s' \<noteq> [] \<Longrightarrow> g_SelectedGameIndex s' < int (length (g_Games s'))"
    and "g_Games s' = [] \<Longrightarrow> g_SelectedGameIndex s' = 0"
    by (simp_all add: index_ok_iff)
qed

theorem selection_in_range_witness:
  "row_ok two_games \<and> index_ok two_games \<and> never_shrinks growing_run two_games
   \<and> run growing_run two_games = Inr third_game_running
   \<and> run growing_run two_games \<noteq> Inl VectorIndexOutOfRange
   \<and> length (g_Games two_games) = 2 \<and> length (g_Games third_game_running) = 3
   \<and> 0 \<le> g_SelectedGameIndex third_game_running
   \<and> g_SelectedGameIndex third_game_running < int (length (g_Games third_game_running))
   \<and> 0 \<le> g_SelectedSettingIndex third_game_running
   \<and> g_SelectedSettingIndex third_game_running < row_limit (g_CurrentTab third_game_running)
   \<and> row_ok (startup example_values) \<and> index_ok (startup example_values)
   \<and> never_shrinks down_run (startup example_values)
   \<and> run down_run (startup example_values) =
       Inr ((startup example_values)\<lparr>g_NextInputTime := 400, g_LastInputMask := 2\<rparr>)
   \<and> g_Games ((startup example_values)\<lparr>g_NextInputTime := 400, g_LastInputMask := 2\<rparr>) = []
   \<and> g_SelectedGameIndex
       ((startup example_values)\<lparr>g_NextInputTime := 400, g_LastInputMask := 2\<rparr>) = 0"
proof -
  have r: "row_ok two_games" and i: "index_ok two_games"
    by (simp_all add: row_ok_def index_ok_def two_games_def startup_def row_limit_def)
  have e: "run growing_run two_games = Inr third_game_running"
    by (simp add: growing_run_def third_game_running_def two_games_def startup_def
        example_values_def tick_eval InstallFiles_def SaveSettings_def scan_eval path_eval
        grown_fs_def two_games_fs_def StartGame_def boot_def keyPath_def nandPath_def
        hasFirmware_def char_of_eq_iff take_bit_eq_mod)
  have n: "never_shrinks growing_run two_games"
    by (simp add: growing_run_def two_games_def startup_def
        example_values_def tick_eval InstallFiles_def SaveSettings_def scan_eval path_eval
        grown_fs_def two_games_fs_def StartGame_def boot_def keyPath_def nandPath_def
        hasFirmware_def char_of_eq_iff take_bit_eq_mod)
  have l: "length (g_Games two_games) = 2" "length (g_Games third_game_running) = 3"
    "g_Games third_game_running \<noteq> []"
    "0 < row_limit (g_CurrentTab third_game_running)"
    by (simp_all add: two_games_def third_game_running_def row_limit_def)
  from selection_in_range [OF r, of growing_run] i n e l(3,4)
  have moved: "run growing_run two_games \<noteq> Inl VectorIndexOutOfRange"
    "0 \<le> g_SelectedGameIndex third_game_running"
    "g_SelectedGameIndex third_game_running < int (length (g_Games third_game_running))"
    "0 \<le> g_SelectedSettingIndex third_game_running"
    "g_SelectedSettingIndex third_game_running < row_limit (g_CurrentTab third_game_running)"
    by simp_all
  have r0: "row_ok (startup example_values)" and i0: "index_ok (startup example_values)"
    by (simp_all add: row_ok_def index_ok_def startup_def row_limit_def)
  have e0: "run down_run (startup example_values) =
       Inr ((startup example_values)\<lparr>g_NextInputTime := 400, g_LastInputMask := 2\<rparr>)"
    by (simp add: down_run_def startup_def example_values_def tick_eval)
  have n0: "never_shrinks down_run (startup example_values)"
    by (simp add: down_run_def startup_def example_values_def tick_eval)
  have g0: "g_Games ((startup example_values)\<lparr>g_NextInputTime := 400, g_LastInputMask := 2\<rparr>) = []"
    by (simp add: startup_def)
  from selection_in_range [OF r0, of down_run] i0 n0 e0 g0
  have empty: "g_SelectedGameIndex
       ((startup example_values)\<lparr>g_NextInputTime := 400, g_LastInputMask := 2\<rparr>) = 0"
    by simp
  from r i n e l(1,2) moved r0 i0 n0 e0 g0 empty show ?thesis by simp
qed

text \<open>
  Claim C1 as stated fails twice. After entering the settings and going one tab to the
  left the current tab has no rows, and the selected row 0 is not below its row count 0.
  And when a rescan returns a shorter list the selected game stays where it was: in
  \<open>shrinking_run\<close> the next launch reads the game list outside its bounds.
\<close>

theorem selection_in_range_counterexample:
  "run placeholder_run two_games =
       Inr (two_games\<lparr>g_AppState := Settings, g_CurrentTab := Network,
              g_NextInputTime := 416, g_LastInputMask := 4\<rparr>)
   \<and> \<not> g_SelectedSettingIndex (two_games\<lparr>g_AppState := Settings, g_CurrentTab := Network,
              g_NextInputTime := 416, g_LastInputMask := 4\<rparr>)
        < row_limit (g_CurrentTab (two_games\<lparr>g_AppState := Settings, g_CurrentTab := Network,
              g_NextInputTime := 416, g_LastInputMask := 4\<rparr>))
   \<and> index_ok two_games
   \<and> run shrinking_run two_games = Inl VectorIndexOutOfRange"
proof (intro conjI)
  show "run shrinking_run two_games = Inl VectorIndexOutOfRange"
    by (simp add: shrinking_run_def two_games_def startup_def example_values_def tick_eval
        InstallFiles_def SaveSettings_def scan_eval one_game_fs_def two_games_fs_def
        StartGame_def)
qed (simp_all add: placeholder_run_def two_games_def startup_def example_values_def tick_eval
    index_ok_def)


subsection \<open>Navigation state machine: screen and tab changes\<close>

text \<open>
  Claim C2, as the code has it. A tick on the library screen with the menu button leaves
  the selected settings row at 0 on the General tab and does not touch the edit flag. A
  tick on the settings screen outside edit mode with a tab button, and with neither the
  down nor the select button, leaves the selected row at 0 and the edit flag clear. A tick
  that leaves the settings screen with the back or the menu button alone arrives on the
  library screen with the edit flag clear and the selected row where it was: the row is
  reset when the settings are entered, not when they are left.
\<close>

theorem screen_and_tab_changes:
  "(g_AppState s = GameList \<and> start b \<and> Navigate e b s = Inr (s', effs) \<longrightarrow>
      g_SelectedSettingIndex s' = 0 \<and> g_CurrentTab s' = General \<and>
      g_IsEditingSetting s' = g_IsEditingSetting s)
   \<and> (g_AppState s = Settings \<and> \<not> g_IsEditingSetting s \<and> (lb b \<or> rb b) \<and>
        \<not> down b \<and> \<not> a_btn b \<and> Navigate e b s = Inr (s', effs) \<longrightarrow>
      g_SelectedSettingIndex s' = 0 \<and> \<not> g_IsEditingSetting s')
   \<and> (g_AppState s = Settings \<and> \<not> g_IsEditingSetting s \<and> (b_btn b \<or> start b) \<and>
        \<not> lb b \<and> \<not> rb b \<and> \<not> up b \<and> \<not> down b \<and> \<not> a_btn b \<and>
        Navigate e b s = Inr (s', effs) \<longrightarrow>
      g_AppState s' = GameList \<and> \<not> g_IsEditingSetting s' \<and>
      g_SelectedSettingIndex s' = g_SelectedSettingIndex s)"
proof (intro conjI impI)
  assume a: "g_AppState s = GameList \<and> start b \<and> Navigate e b s = Inr (s', effs)"
  then have "NavigateGameList e b s = Inr (s', effs)" by (auto simp: Navigate_def)
  with a NavigateGameList_inv [of e b s s' effs]
  show "g_SelectedSettingIndex s' = 0" "g_CurrentTab s' = General"
    "g_IsEditingSetting s' = g_IsEditingSetting s"
    by simp_all
next
  assume a: "g_AppState s = Settings \<and> \<not> g_IsEditingSetting s \<and> (lb b \<or> rb b) \<and>
        \<not> down b \<and> \<not> a_btn b \<and> Navigate e b s = Inr (s', effs)"
  then have "s' = fst (NavigateSettings e b s)" by (auto simp: Navigate_def)
  with a show "g_SelectedSettingIndex s' = 0" "\<not> g_IsEditingSetting s'"
    by (auto simp: NavigateSettings_def Let_def)
next
  assume a: "g_AppState s = Settings \<and> \<not> g_IsEditingSetting s \<and> (b_btn b \<or> start b) \<and>
        \<not> lb b \<and> \<not> rb b \<and> \<not> up b \<and> \<not> down b \<and> \<not> a_btn b \<and>
        Navigate e b s = Inr (s', effs)"
  then have "s' = fst (NavigateSettings e b s)" by (auto simp: Navigate_def)
  with a show "g_AppState s' = GameList" "\<not> g_IsEditingSetting s'"
    "g_SelectedSettingIndex s' = g_SelectedSettingIndex s"
    by (auto simp: NavigateSettings_def Let_def)
qed

theorem screen_and_tab_changes_witness:
  "Navigate (press 0 0x0010 [] None) (no_buttons\<lparr>start := True\<rparr>) (startup example_values) =
     Inr ((startup example_values)\<lparr>g_AppState := Settings\<rparr>, [])
   \<and> g_SelectedSettingIndex ((startup example_values)\<lparr>g_AppState := Settings\<rparr>) = 0
   \<and> Navigate (press 0 0x0100 [] None) (no_buttons\<lparr>lb := True\<rparr>)
       ((startup example_values)\<lparr>g_AppState := Settings, g_SelectedSettingIndex := 3\<rparr>) =
     Inr ((startup example_values)\<lparr>g_AppState := Settings, g_SelectedSettingIndex := 0,
            g_CurrentTab := Network\<rparr>, [])
   \<and> fst (NavigateSettings (press 0 0x2000 [] None) (no_buttons\<lparr>b_btn := True\<rparr>)
       ((startup example_values)\<lparr>g_AppState := Settings, g_SelectedSettingIndex := 3\<rparr>)) =
     (startup example_values)\<lparr>g_SelectedSettingIndex := 3\<rparr>"
proof -
  let ?s = "(startup example_values)\<lparr>g_AppState := Settings, g_SelectedSettingIndex := 3\<rparr>"
  have a: "Navigate (press 0 0x0010 [] None) (no_buttons\<lparr>start := True\<rparr>)
       (startup example_values) = Inr ((startup example_values)\<lparr>g_AppState := Settings\<rparr>, [])"
    by (simp add: Navigate_def NavigateGameList_def startup_def no_buttons_def)
  have b: "Navigate (press 0 0x0100 [] None) (no_buttons\<lparr>lb := True\<rparr>) ?s =
     Inr ((startup example_values)\<lparr>g_AppState := Settings, g_SelectedSettingIndex := 0,
            g_CurrentTab := Network\<rparr>, [])"
    by (simp add: Navigate_def NavigateSettings_def startup_def no_buttons_def Let_def
        tab_of_int_def row_limit_def)
  have c: "Navigate (press 0 0x2000 [] None) (no_buttons\<lparr>b_btn := True\<rparr>) ?s =
     Inr (NavigateSettings (press 0 0x2000 [] None) (no_buttons\<lparr>b_btn := True\<rparr>) ?s)"
    by (simp add: Navigate_def startup_def)
  have h: "g_AppState (startup example_values) = GameList" "g_AppState ?s = Settings"
    "\<not> g_IsEditingSetting ?s"
    by (simp_all add: startup_def)
  from a b c h
    screen_and_tab_changes [of "startup example_values" "no_buttons\<lparr>start := True\<rparr>"
      "press 0 0x0010 [] None" "(startup example_values)\<lparr>g_AppState := Settings\<rparr>" "[]"]
    screen_and_tab_changes [of ?s "no_buttons\<lparr>lb := True\<rparr>" "press 0 0x0100 [] None"
      "(startup example_values)\<lparr>g_AppState := Settings, g_SelectedSettingIndex := 0,
            g_CurrentTab := Network\<rparr>" "[]"]
    screen_and_tab_changes [of ?s "no_buttons\<lparr>b_btn := True\<rparr>" "press 0 0x2000 [] None"
      "fst (NavigateSettings (press 0 0x2000 [] None) (no_buttons\<lparr>b_btn := True\<rparr>) ?s)"
      "snd (NavigateSettings (press 0 0x2000 [] None) (no_buttons\<lparr>b_btn := True\<rparr>) ?s)"]
  show ?thesis
    by (simp add: no_buttons_def NavigateSettings_def SaveSettings_def Let_def startup_def
        press_sel row_limit_def)
qed

text \<open>
  Claim C2 as stated fails when the settings screen is left: after entering the settings,
  moving down twice and pressing the back button, the screen is the library and the
  selected settings row is still 2.
\<close>

theorem screen_and_tab_changes_counterexample:
  "run leave_run (startup example_values) =
     Inr ((startup example_values)\<lparr>g_SelectedSettingIndex := 2, g_NextInputTime := 464,
            g_LastInputMask := 32\<rparr>)
   \<and> g_AppState ((startup example_values)\<lparr>g_SelectedSettingIndex := 2, g_NextInputTime := 464,
            g_LastInputMask := 32\<rparr>) = GameList
   \<and> g_SelectedSettingIndex ((startup example_values)\<lparr>g_SelectedSettingIndex := 2,
            g_NextInputTime := 464, g_LastInputMask := 32\<rparr>) \<noteq> 0"
  by (simp add: leave_run_def startup_def example_values_def tick_eval SaveSettings_def)

subsection \<open>Navigation state machine: edit mode\<close>

lemma smod_nonneg: "0 \<le> k \<Longrightarrow> 0 < l \<Longrightarrow> (k::int) smod l = k mod l"
  by (cases "k = 0") (simp_all add: signed_modulo_int_def)

lemma int32_small: "- 2147483648 \<le> x \<Longrightarrow> x < 2147483648 \<Longrightarrow> int32 x = x"
  by (simp add: int32_def)

lemma cycle_smod:
  assumes "0 \<le> (x::int)" and "x < n" and "n \<le> 18" and "d = 1 \<or> d = - 1"
  shows "int32 (int32 (x + d) + n) smod n = (x + d) mod n"
proof -
  from assms have "int32 (x + d) = x + d" by (intro int32_small) auto
  moreover from assms have "int32 (x + d + n) = x + d + n" by (intro int32_small) auto
  moreover have "0 \<le> x + d + n" and "0 < n" using assms by auto
  then have "(x + d + n) smod n = (x + d + n) mod n" by (rule smod_nonneg)
  ultimately show ?thesis by simp
qed

text \<open>
  Claim C5, as the code has it. In edit mode a tick with a move or tab button is handled
  by \<open>EditSetting\<close>. On row 0 a language index within 0..17 goes to the next index modulo
  18 on \<open>up\<close> and to the previous one modulo 18 otherwise, so it stays within 0..17, and 17
  goes to 0 on \<open>up\<close>. On row 1 a region index within 0..5 moves in the same way modulo 6,
  and 0 goes to 5 on a button other than \<open>up\<close>. On rows 4 and 6 the flag is negated
  whatever the button, and on row 7 the memory layout becomes 6 GB when it was 4 GB and
  4 GB otherwise, whatever the button.
\<close>

theorem edit_cycles:
  assumes "g_AppState s = Settings" and "g_IsEditingSetting s"
    and "up b \<or> down b \<or> lb b \<or> rb b"
  shows "Navigate e b s = Inr (EditSetting b s, [])
    \<and> (g_SelectedSettingIndex s = 0 \<and> 0 \<le> language_index (Settings_values s) \<and>
          language_index (Settings_values s) < 18 \<longrightarrow>
        language_index (Settings_values (EditSetting b s)) =
          (language_index (Settings_values s) + (if up b then 1 else - 1)) mod 18
        \<and> 0 \<le> language_index (Settings_values (EditSetting b s))
        \<and> language_index (Settings_values (EditSetting b s)) < 18)
    \<and> (g_SelectedSettingIndex s = 0 \<and> language_index (Settings_values s) = 17 \<and> up b \<longrightarrow>
        language_index (Settings_values (EditSetting b s)) = 0)
    \<and> (g_SelectedSettingIndex s = 1 \<and> 0 \<le> region_index (Settings_values s) \<and>
          region_index (Settings_values s) < 6 \<longrightarrow>
        region_index (Settings_values (EditSetting b s)) =
          (region_index (Settings_values s) + (if up b then 1 else - 1)) mod 6
        \<and> 0 \<le> region_index (Settings_values (EditSetting b s))
        \<and> region_index (Settings_values (EditSetting b s)) < 6)
    \<and> (g_SelectedSettingIndex s = 1 \<and> region_index (Settings_values s) = 0 \<and> \<not> up b \<longrightarrow>
        region_index (Settings_values (EditSetting b s)) = 5)
    \<and> (g_SelectedSettingIndex s = 4 \<longrightarrow>
        custom_rtc_enabled (Settings_values (EditSetting b s)) =
          (\<not> custom_rtc_enabled (Settings_values s)))
    \<and> (g_SelectedSettingIndex s = 6 \<longrightarrow>
        use_multi_core (Settings_values (EditSetting b s)) =
          (\<not> use_multi_core (Settings_values s)))
    \<and> (g_SelectedSettingIndex s = 7 \<longrightarrow>
        memory_layout_mode (Settings_values (EditSetting b s)) =
          (if memory_layout_mode (Settings_values s) = Memory_4Gb then Memory_6Gb
           else Memory_4Gb))"
proof -
  let ?d = "if up b then 1 else - 1 :: int"
  have d: "?d = 1 \<or> ?d = - 1" by simp
  have nav: "Navigate e b s = Inr (EditSetting b s, [])"
    using assms by (simp add: Navigate_def)
  have "language_index (Settings_values (EditSetting b s)) =
          int32 (int32 (language_index (Settings_values s) + ?d) + 18) smod 18"
    if "g_SelectedSettingIndex s = 0"
    using that assms(3) by (simp add: EditSetting_def Let_def)
  then have lang: "language_index (Settings_values (EditSetting b s)) =
          (language_index (Settings_values s) + ?d) mod 18"
    if "g_SelectedSettingIndex s = 0" "0 \<le> language_index (Settings_values s)"
       "language_index (Settings_values s) < 18"
    using that cycle_smod [OF that(2) that(3) _ d] by simp
  have "region_index (Settings_values (EditSetting b s)) =
          int32 (int32 (region_index (Settings_values s) + ?d) + 6) smod 6"
    if "g_SelectedSettingIndex s = 1"
    using that assms(3) by (simp add: EditSetting_def Let_def)
  then have reg: "region_index (Settings_values (EditSetting b s)) =
          (region_index (Settings_values s) + ?d) mod 6"
    if "g_SelectedSettingIndex s = 1" "0 \<le> region_index (Settings_values s)"
       "region_index (Settings_values s) < 6"
    using that cycle_smod [OF that(2) that(3) _ d] by simp
  have rtc: "custom_rtc_enabled (Settings_values (EditSetting b s)) =
          (\<not> custom_rtc_enabled (Settings_values s))" if "g_SelectedSettingIndex s = 4"
    using that assms(3) by (simp add: EditSetting_def Let_def)
  have mc: "use_multi_core (Settings_values (EditSetting b s)) =
          (\<not> use_multi_core (Settings_values s))" if "g_SelectedSettingIndex s = 6"
    using that assms(3) by (simp add: EditSetting_def Let_def)
  have ml: "memory_layout_mode (Settings_values (EditSetting b s)) =
          (if memory_layout_mode (Settings_values s) = Memory_4Gb then Memory_6Gb
           else Memory_4Gb)" if "g_SelectedSettingIndex s = 7"
    using that assms(3) by (simp add: EditSetting_def Let_def)
  show ?thesis
  proof (intro conjI impI)
    show "Navigate e b s = Inr (EditSetting b s, [])" by (rule nav)
  qed (use lang reg rtc mc ml in \<open>simp_all\<close>)
qed

theorem edit_cycles_witness:
  "language_index (Settings_values (EditSetting (no_buttons\<lparr>up := True\<rparr>)
      (editing_row 0 (example_values\<lparr>language_index := 17\<rparr>)))) = 0
   \<and> region_index (Settings_values (EditSetting (no_buttons\<lparr>down := True\<rparr>)
      (editing_row 1 (example_values\<lparr>region_index := 0\<rparr>)))) = 5
   \<and> custom_rtc_enabled (Settings_values (EditSetting (no_buttons\<lparr>lb := True\<rparr>)
      (editing_row 4 example_values)))
   \<and> \<not> use_multi_core (Settings_values (EditSetting (no_buttons\<lparr>rb := True\<rparr>)
      (editing_row 6 example_values)))
   \<and> memory_layout_mode (Settings_values (EditSetting (no_buttons\<lparr>down := True\<rparr>)
      (editing_row 7 example_values))) = Memory_6Gb
   \<and> memory_layout_mode (Settings_values (EditSetting (no_buttons\<lparr>up := True\<rparr>)
      (editing_row 7 (example_values\<lparr>memory_layout_mode := Memory_6Gb\<rparr>)))) = Memory_4Gb"
proof -
  have h: "g_AppState (editing_row r v) = Settings" "g_IsEditingSetting (editing_row r v)"
    "g_SelectedSettingIndex (editing_row r v) = r" "Settings_values (editing_row r v) = v"
    for r v by (simp_all add: editing_row_def startup_def)
  from
    edit_cycles [of "editing_row 0 (example_values\<lparr>language_index := 17\<rparr>)"
      "no_buttons\<lparr>up := True\<rparr>" "press 0 1 [] None"]
    edit_cycles [of "editing_row 1 (example_values\<lparr>region_index := 0\<rparr>)"
      "no_buttons\<lparr>down := True\<rparr>" "press 0 2 [] None"]
    edit_cycles [of "editing_row 4 example_values"
      "no_buttons\<lparr>lb := True\<rparr>" "press 0 0x100 [] None"]
    edit_cycles [of "editing_row 6 example_values"
      "no_buttons\<lparr>rb := True\<rparr>" "press 0 0x200 [] None"]
    edit_cycles [of "editing_row 7 example_values"
      "no_buttons\<lparr>down := True\<rparr>" "press 0 2 [] None"]
    edit_cycles [of "editing_row 7 (example_values\<lparr>memory_layout_mode := Memory_6Gb\<rparr>)"
      "no_buttons\<lparr>up := True\<rparr>" "press 0 1 [] None"]
  show ?thesis
    by (simp add: h no_buttons_def example_values_def Memory_4Gb_def Memory_6Gb_def)
qed

text \<open>
  Claim C5 as stated fails for a starting value outside the legal range. LoadSettings
  stores whatever number the file holds, so a file with \<open>Language=-30\<close> leaves the language
  index at -30; in edit mode on row 0 the down button then gives -13, which is not within
  0..17.
\<close>

theorem edit_cycles_counterexample:
  "language_index (Settings_values
       (LoadSettings (Some ''Language=-30'') (startup example_values))) = - 30
   \<and> Navigate (press 0 2 [] None) (no_buttons\<lparr>down := True\<rparr>)
       (editing_row 0 (example_values\<lparr>language_index := - 30\<rparr>)) =
     Inr (editing_row 0 (example_values\<lparr>language_index := - 13\<rparr>), [])
   \<and> language_index (Settings_values
       (editing_row 0 (example_values\<lparr>language_index := - 13\<rparr>))) < 0"
proof (intro conjI)
  show "language_index (Settings_values
       (LoadSettings (Some ''Language=-30'') (startup example_values))) = - 30"
    by (simp add: LoadSettings_def LoadLine_def Trim_def is_blank_def find_char_def wtoi_def
        iswspace_def iswdigit_def INT_MIN_def INT_MAX_def Let_def)
  show "Navigate (press 0 2 [] None) (no_buttons\<lparr>down := True\<rparr>)
       (editing_row 0 (example_values\<lparr>language_index := - 30\<rparr>)) =
     Inr (editing_row 0 (example_values\<lparr>language_index := - 13\<rparr>), [])"
    by (simp add: Navigate_def EditSetting_def editing_row_def startup_def example_values_def
        no_buttons_def int32_def signed_modulo_int_def Let_def)
  show "language_index (Settings_values
       (editing_row 0 (example_values\<lparr>language_index := - 13\<rparr>))) < 0"
    by (simp add: editing_row_def startup_def)
qed

text \<open>
  Claim C9, as the code has it. In edit mode on the settings screen, a tick that fires with
  the select or the back button held clears the edit flag and returns. When none of the
  move and tab buttons is held in the same tick, every settings value is as it was.
\<close>

theorem edit_exit:
  assumes "g_AppState s = Settings" and "g_IsEditingSetting s"
    and "fst (Decode (currentMask (fst (PollControllers e))) (GetTickCount64 e) s)"
    and "a_btn (fst (PollControllers e)) \<or> b_btn (fst (PollControllers e))"
  shows "step (Tick e) s \<noteq> Inl f
     \<and> (step (Tick e) s = Inr s' \<longrightarrow>
          \<not> g_IsEditingSetting s'
          \<and> (\<not> up (fst (PollControllers e)) \<and> \<not> down (fst (PollControllers e)) \<and>
             \<not> lb (fst (PollControllers e)) \<and> \<not> rb (fst (PollControllers e)) \<longrightarrow>
               Settings_values s' = Settings_values s))"
proof -
  have conn: "snd (PollControllers e)"
  proof (rule ccontr)
    assume "\<not> snd (PollControllers e)"
    then have "fst (PollControllers e) = no_buttons" using poll_connected by blast
    with assms(4) show False by (simp add: no_buttons_def)
  qed
  define d where "d = snd (Decode (currentMask (fst (PollControllers e))) (GetTickCount64 e) s)"
  have d: "g_AppState d = Settings" "g_IsEditingSetting d" "Settings_values d = Settings_values s"
    using assms(1,2) by (simp_all add: d_def)
  have "HandleInput e s = Inr (EditSetting (fst (PollControllers e)) d, [])"
    using assms(3) conn d by (simp add: HandleInput_def Let_def d_def Navigate_def)
  then have st: "step (Tick e) s = Inr (EditSetting (fst (PollControllers e)) d)" by simp
  have "\<not> g_IsEditingSetting (EditSetting (fst (PollControllers e)) d)"
    using assms(4) by (auto simp: EditSetting_def Let_def)
  moreover have "Settings_values (EditSetting (fst (PollControllers e)) d) = Settings_values s"
    if "\<not> up (fst (PollControllers e)) \<and> \<not> down (fst (PollControllers e)) \<and>
        \<not> lb (fst (PollControllers e)) \<and> \<not> rb (fst (PollControllers e))"
    using that assms(4) d by (auto simp: EditSetting_def Let_def)
  ultimately show ?thesis using st by auto
qed

theorem edit_exit_witness:
  "g_IsEditingSetting (editing_row 4 example_values)
   \<and> b_btn (fst (PollControllers (press 1000 0x2000 [] None)))
   \<and> step (Tick (press 1000 0x2000 [] None)) (editing_row 4 example_values) =
       Inr ((editing_row 4 example_values)\<lparr>g_IsEditingSetting := False,
              g_NextInputTime := 1400, g_LastInputMask := 32\<rparr>)
   \<and> Settings_values ((editing_row 4 example_values)\<lparr>g_IsEditingSetting := False,
              g_NextInputTime := 1400, g_LastInputMask := 32\<rparr>) = example_values"
proof -
  let ?e = "press 1000 0x2000 [] None" and ?s = "editing_row 4 example_values"
  have h: "g_AppState ?s = Settings" "g_IsEditingSetting ?s"
    "fst (Decode (currentMask (fst (PollControllers ?e))) (GetTickCount64 ?e) ?s)"
    "a_btn (fst (PollControllers ?e)) \<or> b_btn (fst (PollControllers ?e))"
    by (simp_all add: editing_row_def startup_def tick_eval)
  have r: "step (Tick ?e) ?s =
       Inr (?s\<lparr>g_IsEditingSetting := False, g_NextInputTime := 1400, g_LastInputMask := 32\<rparr>)"
    by (simp add: editing_row_def startup_def example_values_def tick_eval)
  from h r edit_exit [OF h, of VectorIndexOutOfRange
      "?s\<lparr>g_IsEditingSetting := False, g_NextInputTime := 1400, g_LastInputMask := 32\<rparr>"]
  show ?thesis by (simp add: poll_press editing_row_def startup_def)
qed

text \<open>
  Claim C9 as stated fails when a move button is held together with the back button: in
  edit mode on the custom-clock row, a tick with back and up clears the edit flag and
  also switches the custom clock on.
\<close>

theorem edit_exit_counterexample:
  "g_IsEditingSetting (editing_row 4 example_values)
   \<and> b_btn (fst (PollControllers (press 1000 0x2001 [] None)))
   \<and> step (Tick (press 1000 0x2001 [] None)) (editing_row 4 example_values) =
       Inr ((editing_row 4 example_values)\<lparr>g_IsEditingSetting := False,
              g_NextInputTime := 1400, g_LastInputMask := 33,
              Settings_values := example_values\<lparr>custom_rtc_enabled := True\<rparr>\<rparr>)
   \<and> custom_rtc_enabled (Settings_values (editing_row 4 example_values)) = False"
  by (simp add: tick_eval editing_row_def startup_def example_values_def)


subsection \<open>Input repeat decoder\<close>

lemma Decode_held:
  assumes "g_LastInputMask s = m" and "m \<noteq> 0"
  shows "fst (Decode m t s) = (g_NextInputTime s \<le> t)"
    and "g_LastInputMask (snd (Decode m t s)) = m"
    and "g_NextInputTime (snd (Decode m t s)) =
           (if g_NextInputTime s \<le> t then t + 50 else g_NextInputTime s)"
  using assms by (simp_all add: Decode_def Let_def)

lemma Decode_fresh:
  assumes "g_LastInputMask s \<noteq> m" and "m \<noteq> 0"
  shows "fst (Decode m t s)"
    and "g_LastInputMask (snd (Decode m t s)) = m"
    and "g_NextInputTime (snd (Decode m t s)) = t + 400"
  using assms by (simp_all add: Decode_def Let_def)

lemma Decode_released: "\<not> fst (Decode 0 t s)"
  by (simp add: Decode_def)

lemma length_fires [simp]: "length (fires m ts s) = length ts"
  by (induction ts arbitrary: s) simp_all

lemma unat_plus_50:
  fixes t :: "64 word"
  assumes "unat t + 400 < 2 ^ 64"
  shows "unat (t + 50) = unat t + 50"
proof -
  have "unat t + unat (50 :: 64 word) < 2 ^ LENGTH(64)" using assms by simp
  then have "unat (t + 50) = unat t + unat (50 :: 64 word)" by (simp only: unat_add_lem)
  then show ?thesis by simp
qed

lemma unat_plus_400:
  fixes t :: "64 word"
  assumes "unat t + 400 < 2 ^ 64"
  shows "unat (t + 400) = unat t + 400"
proof -
  have "unat t + unat (400 :: 64 word) < 2 ^ LENGTH(64)" using assms by simp
  then have "unat (t + 400) = unat t + unat (400 :: 64 word)" by (simp only: unat_add_lem)
  then show ?thesis by simp
qed

text \<open>While the mask is held, a tick that executes is not before the armed time.\<close>

lemma held_not_before:
  assumes "g_LastInputMask s = m" and "m \<noteq> 0"
    and "\<forall>t \<in> set ts. unat t + 400 < 2 ^ 64"
    and "i < length ts" and "fires m ts s ! i"
  shows "unat (g_NextInputTime s) \<le> unat (ts ! i)"
  using assms
proof (induction ts arbitrary: s i)
  case Nil
  then show ?case by simp
next
  case (Cons t ts)
  note held = Decode_held [OF Cons.prems(1,2), of t]
  show ?case
  proof (cases i)
    case 0
    with Cons.prems(5) held(1) show ?thesis by (simp add: word_le_nat_alt)
  next
    case (Suc k)
    with Cons.prems have k: "k < length ts" "fires m ts (snd (Decode m t s)) ! k"
      and ts: "\<forall>t \<in> set ts. unat t + 400 < 2 ^ 64" and t: "unat t + 400 < 2 ^ 64"
      by simp_all
    from Cons.IH [OF held(2) Cons.prems(2) ts k]
    have "unat (g_NextInputTime (snd (Decode m t s))) \<le> unat (ts ! k)" .
    moreover have "unat (g_NextInputTime s) \<le> unat (g_NextInputTime (snd (Decode m t s)))"
      using held(3) unat_plus_50 [OF t] by (simp add: word_le_nat_alt)
    ultimately show ?thesis using Suc by simp
  qed
qed

text \<open>While the mask is held, two ticks that execute are at least 50 ms apart.\<close>

lemma held_spacing:
  assumes "g_LastInputMask s = m" and "m \<noteq> 0"
    and "\<forall>t \<in> set ts. unat t + 400 < 2 ^ 64"
    and "i < j" and "j < length ts" and "fires m ts s ! i" and "fires m ts s ! j"
  shows "unat (ts ! i) + 50 \<le> unat (ts ! j)"
  using assms
proof (induction ts arbitrary: s i j)
  case Nil
  then show ?case by simp
next
  case (Cons t ts)
  note held = Decode_held [OF Cons.prems(1,2), of t]
  from Cons.prems obtain j' where j: "j = Suc j'" by (cases j) simp_all
  from Cons.prems j have ts: "\<forall>t \<in> set ts. unat t + 400 < 2 ^ 64"
    and t: "unat t + 400 < 2 ^ 64" and j': "j' < length ts"
    and fj: "fires m ts (snd (Decode m t s)) ! j'"
    by simp_all
  show ?case
  proof (cases i)
    case 0
    with Cons.prems(6) held(1) have "g_NextInputTime s \<le> t" by simp
    with held(3) have "g_NextInputTime (snd (Decode m t s)) = t + 50" by simp
    with held_not_before [OF held(2) Cons.prems(2) ts j' fj] unat_plus_50 [OF t]
    show ?thesis using 0 j by simp
  next
    case (Suc i')
    with Cons.prems j have "i' < j'" "fires m ts (snd (Decode m t s)) ! i'" by simp_all
    from Cons.IH [OF held(2) Cons.prems(2) ts this(1) j' this(2) fj]
    show ?thesis using Suc j by simp
  qed
qed

text \<open>While the mask is held and no tick has executed, a tick executes exactly when the
  armed time has come.\<close>

lemma held_quiet:
  assumes "g_LastInputMask s = m" and "m \<noteq> 0"
    and "i < length ts" and "\<forall>k < i. \<not> fires m ts s ! k"
  shows "fires m ts s ! i = (g_NextInputTime s \<le> ts ! i)"
  using assms
proof (induction ts arbitrary: s i)
  case Nil
  then show ?case by simp
next
  case (Cons t ts)
  note held = Decode_held [OF Cons.prems(1,2), of t]
  show ?case
  proof (cases i)
    case 0
    with held(1) show ?thesis by simp
  next
    case (Suc i')
    from Cons.prems(4) Suc have "\<not> fires m (t # ts) s ! 0" by blast
    with held(1) have quiet: "\<not> g_NextInputTime s \<le> t" by simp
    with held(3) have same: "g_NextInputTime (snd (Decode m t s)) = g_NextInputTime s" by simp
    have "\<forall>k < i'. \<not> fires m ts (snd (Decode m t s)) ! k"
    proof (intro allI impI)
      fix k assume "k < i'"
      with Suc have "Suc k < i" by simp
      with Cons.prems(4) have "\<not> fires m (t # ts) s ! Suc k" by blast
      then show "\<not> fires m ts (snd (Decode m t s)) ! k" by simp
    qed
    moreover from Cons.prems(3) Suc have "i' < length ts" by simp
    ultimately have "fires m ts (snd (Decode m t s)) ! i' =
        (g_NextInputTime (snd (Decode m t s)) \<le> ts ! i')"
      by (intro Cons.IH [OF held(2) Cons.prems(2)])
    with same Suc show ?thesis by simp
  qed
qed

text \<open>While the mask is held, the first tick at least 50 ms after one that executed
  executes too.\<close>

lemma held_repeat:
  assumes "g_LastInputMask s = m" and "m \<noteq> 0"
    and "\<forall>t \<in> set ts. unat t + 400 < 2 ^ 64"
    and "i < j" and "j < length ts" and "fires m ts s ! i"
    and "\<forall>k. i < k \<and> k < j \<longrightarrow> \<not> fires m ts s ! k"
    and "unat (ts ! i) + 50 \<le> unat (ts ! j)"
  shows "fires m ts s ! j"
  using assms
proof (induction ts arbitrary: s i j)
  case Nil
  then show ?case by simp
next
  case (Cons t ts)
  note held = Decode_held [OF Cons.prems(1,2), of t]
  from Cons.prems obtain j' where j: "j = Suc j'" by (cases j) simp_all
  from Cons.prems j have ts: "\<forall>t \<in> set ts. unat t + 400 < 2 ^ 64"
    and t: "unat t + 400 < 2 ^ 64" and j': "j' < length ts"
    by simp_all
  show ?case
  proof (cases i)
    case 0
    with Cons.prems(6) held(1) have "g_NextInputTime s \<le> t" by simp
    with held(3) have armed: "g_NextInputTime (snd (Decode m t s)) = t + 50" by simp
    have quiet: "\<forall>k < j'. \<not> fires m ts (snd (Decode m t s)) ! k"
    proof (intro allI impI)
      fix k assume "k < j'"
      with 0 j have "i < Suc k \<and> Suc k < j" by simp
      with Cons.prems(7) have "\<not> fires m (t # ts) s ! Suc k" by blast
      then show "\<not> fires m ts (snd (Decode m t s)) ! k" by simp
    qed
    from Cons.prems(8) 0 j have "unat t + 50 \<le> unat (ts ! j')" by simp
    with unat_plus_50 [OF t] have "t + 50 \<le> ts ! j'" by (simp add: word_le_nat_alt)
    with held_quiet [OF held(2) Cons.prems(2) j' quiet] armed j show ?thesis by simp
  next
    case (Suc i')
    with Cons.prems j have a: "i' < j'" "fires m ts (snd (Decode m t s)) ! i'"
      "unat (ts ! i') + 50 \<le> unat (ts ! j')" by simp_all
    have b: "\<forall>k. i' < k \<and> k < j' \<longrightarrow> \<not> fires m ts (snd (Decode m t s)) ! k"
    proof (intro allI impI)
      fix k assume "i' < k \<and> k < j'"
      with Suc j have "i < Suc k \<and> Suc k < j" by simp
      with Cons.prems(7) have "\<not> fires m (t # ts) s ! Suc k" by blast
      then show "\<not> fires m ts (snd (Decode m t s)) ! k" by simp
    qed
    from Cons.IH [OF held(2) Cons.prems(2) ts a(1) j' a(2) b a(3)] j show ?thesis by simp
  qed
qed

text \<open>
  Claim C3. A non-zero mask \<open>m\<close> that differs from the previous mask is seen at time \<open>t0\<close>
  and then again at each of the times \<open>ts\<close>; the tick counter is far enough from
  \<open>2 ^ 64\<close> for \<open>t + 400\<close> not to wrap. Then the tick at \<open>t0\<close> executes; a later
  tick that executes is at least 400 ms after \<open>t0\<close>; two later ticks that execute are at
  least 50 ms apart; and a tick whose mask is zero never executes, whatever the state.
  The held mask does repeat: the first later tick that is at least 400 ms after \<open>t0\<close>
  executes, and after a later tick that executed, the first tick that is at least 50 ms
  after it executes.
\<close>

theorem decoder_timing:
  assumes "m \<noteq> 0" and "g_LastInputMask s \<noteq> m"
    and "\<forall>t \<in> set (t0 # ts). unat t + 400 < 2 ^ 64"
  shows "fires m (t0 # ts) s ! 0
     \<and> (\<forall>i < length ts. fires m (t0 # ts) s ! Suc i \<longrightarrow> unat t0 + 400 \<le> unat (ts ! i))
     \<and> (\<forall>i j. i < j \<and> j < length ts \<and>
               fires m (t0 # ts) s ! Suc i \<and> fires m (t0 # ts) s ! Suc j \<longrightarrow>
               unat (ts ! i) + 50 \<le> unat (ts ! j))
     \<and> \<not> fst (Decode 0 t s')
     \<and> (\<forall>i < length ts.
           (\<forall>k < i. \<not> fires m (t0 # ts) s ! Suc k) \<and> unat t0 + 400 \<le> unat (ts ! i) \<longrightarrow>
           fires m (t0 # ts) s ! Suc i)
     \<and> (\<forall>i j. i < j \<and> j < length ts \<and> fires m (t0 # ts) s ! Suc i \<and>
               (\<forall>k. i < k \<and> k < j \<longrightarrow> \<not> fires m (t0 # ts) s ! Suc k) \<and>
               unat (ts ! i) + 50 \<le> unat (ts ! j) \<longrightarrow>
               fires m (t0 # ts) s ! Suc j)"
proof -
  note fresh = Decode_fresh [OF assms(2,1), of t0]
  from assms(3) have ts: "\<forall>t \<in> set ts. unat t + 400 < 2 ^ 64"
    and t0: "unat t0 + 400 < 2 ^ 64" by simp_all
  have first: "fires m (t0 # ts) s ! 0" using fresh(1) by simp
  have delay: "unat t0 + 400 \<le> unat (ts ! i)"
    if "i < length ts" "fires m (t0 # ts) s ! Suc i" for i
  proof -
    from that have "fires m ts (snd (Decode m t0 s)) ! i" by simp
    from held_not_before [OF fresh(2) assms(1) ts that(1) this] fresh(3) unat_plus_400 [OF t0]
    show ?thesis by simp
  qed
  have rate: "unat (ts ! i) + 50 \<le> unat (ts ! j)"
    if "i < j" "j < length ts" "fires m (t0 # ts) s ! Suc i" "fires m (t0 # ts) s ! Suc j"
    for i j
  proof -
    from that have "fires m ts (snd (Decode m t0 s)) ! i" "fires m ts (snd (Decode m t0 s)) ! j"
      by simp_all
    from held_spacing [OF fresh(2) assms(1) ts that(1,2) this] show ?thesis .
  qed
  have again: "fires m (t0 # ts) s ! Suc i"
    if "i < length ts" "\<forall>k < i. \<not> fires m (t0 # ts) s ! Suc k"
      "unat t0 + 400 \<le> unat (ts ! i)" for i
  proof -
    from that(2) have "\<forall>k < i. \<not> fires m ts (snd (Decode m t0 s)) ! k" by simp
    from held_quiet [OF fresh(2) assms(1) that(1) this] fresh(3)
    have "fires m ts (snd (Decode m t0 s)) ! i = (t0 + 400 \<le> ts ! i)" by simp
    with that(3) unat_plus_400 [OF t0] show ?thesis by (simp add: word_le_nat_alt)
  qed
  have repeat: "fires m (t0 # ts) s ! Suc j"
    if "i < j" "j < length ts" "fires m (t0 # ts) s ! Suc i"
      "\<forall>k. i < k \<and> k < j \<longrightarrow> \<not> fires m (t0 # ts) s ! Suc k"
      "unat (ts ! i) + 50 \<le> unat (ts ! j)" for i j
  proof -
    from that(3,4) have "fires m ts (snd (Decode m t0 s)) ! i"
      "\<forall>k. i < k \<and> k < j \<longrightarrow> \<not> fires m ts (snd (Decode m t0 s)) ! k" by simp_all
    from held_repeat [OF fresh(2) assms(1) ts that(1,2) this that(5)] show ?thesis by simp
  qed
  show ?thesis
  proof (intro conjI allI impI)
    show "fires m (t0 # ts) s ! 0" by (rule first)
    show "\<not> fst (Decode 0 t s')" by (rule Decode_released)
  qed (use delay rate again repeat in blast)+
qed

theorem decoder_timing_witness:
  "(2 :: 16 word) \<noteq> 0 \<and> g_LastInputMask (startup example_values) \<noteq> 2
   \<and> list_all (\<lambda>t. unat t + 400 < 2 ^ 64) (0 # held_times)
   \<and> fires 2 (0 # held_times) (startup example_values) =
       [True, False, False, True, False, False, True, False, True]
   \<and> unat (0 :: 64 word) + 400 \<le> unat (held_times ! 2)
   \<and> unat (held_times ! 2) + 50 \<le> unat (held_times ! 5)
   \<and> fires 2 (0 # held_times) (startup example_values) ! Suc 2
   \<and> fires 2 (0 # held_times) (startup example_values) ! Suc 5
   \<and> \<not> fst (Decode 0 600 (startup example_values))"
proof -
  let ?f = "fires 2 (0 # held_times) (startup example_values)"
  have h: "(2 :: 16 word) \<noteq> 0" "g_LastInputMask (startup example_values) \<noteq> 2"
    "\<forall>t \<in> set (0 # held_times). unat t + 400 < 2 ^ 64"
    by (simp_all add: startup_def held_times_def)
  have f: "?f = [True, False, False, True, False, False, True, False, True]"
    by (simp add: held_times_def startup_def Decode_def Let_def)
  note c = decoder_timing [OF h, of 600 "startup example_values"]
  from c have lower: "\<forall>i < length held_times.
          ?f ! Suc i \<longrightarrow> unat (0 :: 64 word) + 400 \<le> unat (held_times ! i)"
    and apart: "\<forall>i j. i < j \<and> j < length held_times \<and> ?f ! Suc i \<and> ?f ! Suc j \<longrightarrow>
          unat (held_times ! i) + 50 \<le> unat (held_times ! j)"
    and r: "\<not> fst (Decode 0 600 (startup example_values))"
    and again: "\<forall>i < length held_times.
           (\<forall>k < i. \<not> ?f ! Suc k) \<and> unat (0 :: 64 word) + 400 \<le> unat (held_times ! i) \<longrightarrow>
           ?f ! Suc i"
    by blast+
  have len: "(2 :: nat) < length held_times" "(5 :: nat) < length held_times"
    by (simp_all add: held_times_def)
  have quiet: "\<forall>k < (2 :: nat). \<not> ?f ! Suc k"
    unfolding f by (simp add: less_Suc_eq numeral_2_eq_2)
  have t2: "unat (0 :: 64 word) + 400 \<le> unat (held_times ! 2)"
    by (simp add: held_times_def)
  from again len(1) quiet t2 have f2: "?f ! Suc 2" by blast
  have f5: "?f ! Suc 5" unfolding f by simp
  from apart len(2) f2 f5 have "unat (held_times ! 2) + 50 \<le> unat (held_times ! 5)"
    by simp
  with h f r t2 f2 f5 show ?thesis by (simp add: list_all_iff)
qed

subsection \<open>Library scanner\<close>

lemma tolower_same_letter:
  assumes "\<not> is_upper k"
  shows "tolower c = k \<longleftrightarrow> same_letter c k"
proof (cases "is_upper c")
  case True
  then have small: "(of_char c :: nat) + 32 < 256" by (simp add: is_upper_def)
  from True have "tolower c = char_of ((of_char c :: nat) + 32)"
    by (simp add: tolower_def is_upper_def)
  then have "tolower c = k \<longleftrightarrow> take_bit 8 ((of_char c :: nat) + 32) = of_char k"
    by (simp only: char_of_eq_iff)
  also have "take_bit 8 ((of_char c :: nat) + 32) = of_char c + 32"
    using small by (simp add: take_bit_eq_mod)
  finally have "tolower c = k \<longleftrightarrow> (of_char k :: nat) = of_char c + 32" by auto
  moreover have "c \<noteq> k" using True assms by auto
  ultimately show ?thesis using True assms by (simp add: same_letter_def)
next
  case False
  then have "tolower c = c" by (auto simp: tolower_def is_upper_def)
  with False assms show ?thesis by (auto simp: same_letter_def)
qed

lemma map_tolower_eq:
  assumes "\<forall>k \<in> set ks. \<not> is_upper k"
  shows "map tolower cs = ks \<longleftrightarrow> eq_ignoring_case cs ks"
  using assms
proof (induction cs arbitrary: ks)
  case Nil
  then show ?case by (auto simp: eq_ignoring_case_def)
next
  case (Cons c cs)
  show ?case
  proof (cases ks)
    case Nil
    then show ?thesis by (simp add: eq_ignoring_case_def)
  next
    case (Cons k ks')
    with Cons.prems have "\<not> is_upper k" "\<forall>k \<in> set ks'. \<not> is_upper k" by simp_all
    with Cons.IH [of ks'] tolower_same_letter [of k c] Cons
    show ?thesis by (simp add: eq_ignoring_case_def)
  qed
qed

lemma is_game_file_recognized: "is_game_file n \<longleftrightarrow> recognized n"
proof -
  have "map tolower (extension n) = ''.nsp'' \<longleftrightarrow> eq_ignoring_case (extension n) ''.nsp''"
    by (rule map_tolower_eq) (simp add: is_upper_def)
  moreover
  have "map tolower (extension n) = ''.xci'' \<longleftrightarrow> eq_ignoring_case (extension n) ''.xci''"
    by (rule map_tolower_eq) (simp add: is_upper_def)
  ultimately show ?thesis by (simp add: is_game_file_def recognized_def Let_def)
qed

lemma walk_readable:
  "readable es \<Longrightarrow>
   walk dir es = (filter (\<lambda>g. recognized (name g)) (regular_files dir es), True)"
proof (induction dir es rule: walk.induct)
  case (1 dir)
  then show ?case by simp
next
  case (2 dir n es)
  then show ?case by (simp add: Let_def is_game_file_recognized)
next
  case (3 dir n sub es)
  then show ?case by (simp add: Let_def)
next
  case (4 dir n es)
  then show ?case by simp
next
  case (5 dir n es)
  then show ?case by simp
qed

text \<open>
  Claim C6. The scan of a search path that is a readable directory tree yields, in
  traversal order, exactly the regular files of the tree, at any depth, whose extension
  equals \<open>.nsp\<close> or \<open>.xci\<close> ignoring case, each with its file name and its full path.
\<close>

theorem scan_collects:
  assumes "map_of f p = Some (DirAt es)" and "readable es"
  shows "scan_path f p = filter (\<lambda>g. recognized (name g)) (regular_files p es)"
  using assms by (simp add: scan_path_def walk_readable)

theorem scan_collects_witness:
  "map_of example_tree_fs (''D:'' @ sep # ''Games'') = Some (DirAt example_tree)
   \<and> readable example_tree
   \<and> scan_path example_tree_fs (''D:'' @ sep # ''Games'') =
       [\<lparr>name = ''a.nsp'', path = ''D:'' @ sep # ''Games'' @ sep # ''a.nsp''\<rparr>,
        \<lparr>name = ''b.NSP'', path = ''D:'' @ sep # ''Games'' @ sep # ''b.NSP''\<rparr>,
        \<lparr>name = ''d.xci'', path = ''D:'' @ sep # ''Games'' @ sep # ''sub'' @ sep # ''d.xci''\<rparr>]
   \<and> g_Games (ScanGames example_tree_fs (startup example_values)) =
       [\<lparr>name = ''a.nsp'', path = ''D:'' @ sep # ''Games'' @ sep # ''a.nsp''\<rparr>,
        \<lparr>name = ''b.NSP'', path = ''D:'' @ sep # ''Games'' @ sep # ''b.NSP''\<rparr>,
        \<lparr>name = ''d.xci'', path = ''D:'' @ sep # ''Games'' @ sep # ''sub'' @ sep # ''d.xci''\<rparr>]"
proof -
  have h: "map_of example_tree_fs (''D:'' @ sep # ''Games'') = Some (DirAt example_tree)"
    "readable example_tree"
    by (simp_all add: example_tree_fs_def example_tree_def)
  have r: "filter (\<lambda>g. recognized (name g))
             (regular_files (''D:'' @ sep # ''Games'') example_tree) =
       [\<lparr>name = ''a.nsp'', path = ''D:'' @ sep # ''Games'' @ sep # ''a.nsp''\<rparr>,
        \<lparr>name = ''b.NSP'', path = ''D:'' @ sep # ''Games'' @ sep # ''b.NSP''\<rparr>,
        \<lparr>name = ''d.xci'', path = ''D:'' @ sep # ''Games'' @ sep # ''sub'' @ sep # ''d.xci''\<rparr>]"
    by (simp add: example_tree_def is_game_file_recognized [symmetric] is_game_file_def
        extension_def tolower_def path_append_def char_of_eq_iff take_bit_eq_mod)
  have s: "g_Games (ScanGames example_tree_fs (startup example_values)) =
       scan_path example_tree_fs (''D:'' @ sep # ''Games'')"
    by (simp add: ScanGames_def searchPaths_def startup_def drive_letters_def exists_path_def
        example_tree_fs_def sep_def scan_path_def [of _ "CHR ''E'' # _"]
        scan_path_def [of "[]"])
  from h r s scan_collects [OF h] show ?thesis by simp
qed


subsection \<open>Configuration store: numbers\<close>

lemma digit_char_value: "d < 10 \<Longrightarrow> (of_char (digit_char d) :: nat) = 48 + d"
  by (simp add: digit_char_def)

lemma iswdigit_digit_char: "d < 10 \<Longrightarrow> iswdigit (digit_char d)"
  by (simp add: iswdigit_def digit_char_value)

lemma digits_all_digits: "\<forall>c \<in> set (digits n). iswdigit c"
proof (induction n rule: digits.induct)
  case (1 n)
  show ?case
  proof (cases "10 \<le> n")
    case True
    with 1 show ?thesis
      by (subst digits.simps) (simp add: iswdigit_digit_char)
  next
    case False
    then show ?thesis
      by (subst digits.simps) (simp add: iswdigit_digit_char)
  qed
qed

lemma digits_not_empty: "digits n \<noteq> []"
  by (subst digits.simps) simp

lemma digits_value_append:
  "\<forall>c \<in> set ds. iswdigit c \<Longrightarrow>
   digits_value acc (ds @ rest) = digits_value (digits_value acc ds) rest"
  by (induction ds arbitrary: acc) simp_all

lemma digits_value_digit: "d < 10 \<Longrightarrow> digits_value acc [digit_char d] = acc * 10 + int d"
proof -
  assume d: "d < 10"
  have "(of_char (digit_char d) :: int) = int (of_char (digit_char d) :: nat)"
    by (simp only: of_nat_of_char)
  then have "(of_char (digit_char d) :: int) = 48 + int d"
    using digit_char_value [OF d] by simp
  with iswdigit_digit_char [OF d] show ?thesis by simp
qed

lemma digits_value_digits:
  "digits_value acc (digits n) = acc * 10 ^ length (digits n) + int n"
proof (induction n arbitrary: acc rule: digits.induct)
  case (1 n)
  show ?case
  proof (cases "10 \<le> n")
    case True
    have mod10: "n mod 10 < 10" by simp
    have split: "digits n = digits (n div 10) @ [digit_char (n mod 10)]"
      using True by (subst digits.simps) simp
    have "digits_value acc (digits n) =
        digits_value (digits_value acc (digits (n div 10))) [digit_char (n mod 10)]"
      unfolding split by (rule digits_value_append) (rule digits_all_digits)
    also have "\<dots> = (acc * 10 ^ length (digits (n div 10)) + int (n div 10)) * 10 + int (n mod 10)"
      using 1 [OF True] by (simp only: digits_value_digit [OF mod10])
    also have "\<dots> = acc * 10 ^ length (digits n) + int n"
      unfolding split by (simp add: algebra_simps zdiv_int zmod_int)
    finally show ?thesis .
  next
    case False
    then have small: "n < 10" by simp
    from False have "digits n = [digit_char n]" by (subst digits.simps) simp
    then show ?thesis by (simp add: digits_value_digit [OF small] del: digits_value.simps)
  qed
qed

lemma digits_value_show: "digits_value 0 (digits n) = int n"
  by (simp add: digits_value_digits)

lemma hd_digits_digit: "iswdigit (hd (digits n))"
  using digits_all_digits [of n] digits_not_empty [of n] by (cases "digits n") simp_all

lemma iswdigit_not_sign:
  "iswdigit c \<Longrightarrow> c \<noteq> CHR ''-'' \<and> c \<noteq> CHR ''+'' \<and> \<not> iswspace c \<and> \<not> is_blank c \<and> c \<noteq> CHR 0x0A"
  by (auto simp: iswdigit_def iswspace_def is_blank_def)

lemma wtoi_show_int:
  assumes "INT_MIN \<le> i" and "i \<le> INT_MAX"
  shows "wtoi (show_int i) = i"
proof (cases "i < 0")
  case True
  have "wtoi (CHR ''-'' # digits (nat (- i))) = max INT_MIN (min INT_MAX (- int (nat (- i))))"
    by (simp add: wtoi_def iswspace_def Let_def digits_value_show)
  with True assms show ?thesis by (simp add: show_int_def)
next
  case False
  obtain c cs where d: "digits (nat i) = c # cs" using digits_not_empty [of "nat i"]
    by (cases "digits (nat i)") auto
  with hd_digits_digit [of "nat i"] have "iswdigit c" by simp
  note c = iswdigit_not_sign [OF this]
  have "digits_value 0 (c # cs) = int (nat i)" using digits_value_show [of "nat i"] d by simp
  with c have "wtoi (c # cs) = max INT_MIN (min INT_MAX (int (nat i)))"
    by (simp add: wtoi_def Let_def del: digits_value.simps)
  with False assms d show ?thesis by (simp add: show_int_def)
qed

lemma show_int_clean:
  "show_int i \<noteq> []" "\<not> is_blank (last (show_int i))" "CHR 0x0A \<notin> set (show_int i)"
proof -
  have all: "\<forall>c \<in> set (show_int i). iswdigit c \<or> c = CHR ''-''"
    using digits_all_digits by (auto simp: show_int_def)
  show ne: "show_int i \<noteq> []" by (simp add: show_int_def digits_not_empty)
  have "last (show_int i) = last (digits (if i < 0 then nat (- i) else nat i))"
    by (simp add: show_int_def digits_not_empty)
  moreover have "iswdigit (last (digits n))" for n
    using digits_all_digits [of n] last_in_set [OF digits_not_empty [of n]] by blast
  ultimately show "\<not> is_blank (last (show_int i))"
    using iswdigit_not_sign by metis
  show "CHR 0x0A \<notin> set (show_int i)"
    using all iswdigit_not_sign by fastforce
qed

subsection \<open>Configuration store: lines\<close>

lemma Trim_clean:
  assumes "s \<noteq> []" and "\<not> is_blank (hd s)" and "\<not> is_blank (last s)"
  shows "Trim s = s"
proof -
  have "dropWhile is_blank s = s" using assms(1,2) by (cases s) simp_all
  moreover have "dropWhile is_blank (rev s) = rev s"
    using assms(1,3) by (cases "rev s") (simp_all add: last_rev [symmetric])
  ultimately show ?thesis by (simp add: Trim_def)
qed

lemma Trim_fixed:
  assumes "Trim p = p" and "p \<noteq> []"
  shows "\<not> is_blank (hd p)" and "\<not> is_blank (last p)"
proof -
  let ?q = "dropWhile is_blank p"
  have "length p = length (dropWhile is_blank (rev ?q))"
    using assms(1) by (metis Trim_def length_rev)
  also have "\<dots> \<le> length ?q" using length_dropWhile_le [of is_blank "rev ?q"] by simp
  finally have "length p \<le> length ?q" .
  with length_dropWhile_le [of is_blank p] have "length ?q = length p" by simp
  then have q: "?q = p"
    by (metis append_eq_conv_conj takeWhile_dropWhile_id length_append
        add_cancel_left_left length_0_conv append_Nil)
  with assms(2) show "\<not> is_blank (hd p)" by (metis hd_dropWhile)
  from q assms(1) have "dropWhile is_blank (rev p) = rev p"
    by (metis Trim_def rev_swap)
  with assms(2) show "\<not> is_blank (last p)"
    by (metis hd_dropWhile hd_rev rev_is_Nil_conv)
qed

lemma getlines_line:
  "CHR 0x0A \<notin> set l \<Longrightarrow> getlines cur (l @ CHR 0x0A # rest) = (cur @ l) # getlines [] rest"
  by (induction l arbitrary: cur) auto

lemma getlines_lines:
  "\<forall>l \<in> set ls. CHR 0x0A \<notin> set l \<Longrightarrow>
   getlines [] (concat (map (\<lambda>l. l @ endl) ls)) = ls"
  by (induction ls) (simp_all add: endl_def getlines_line)

lemma find_char_first:
  "c \<notin> set k \<Longrightarrow> find_char c (k @ c # v) = Some (length k)"
proof -
  assume "c \<notin> set k"
  then have "takeWhile (\<lambda>x. x \<noteq> c) (k @ c # v) = k"
    by (induction k) auto
  then show ?thesis by (simp add: find_char_def)
qed

text \<open>A line \<open>key=value\<close> whose key and value need no trimming.\<close>

lemma LoadLine_assign:
  assumes "k \<noteq> []" and "\<not> is_blank (hd k)" and "\<not> is_blank (last k)"
    and "hd k \<noteq> CHR ''[''" and "CHR ''='' \<notin> set k" and "Trim v = v"
  shows "LoadLine s (k @ CHR ''='' # v) =
     (if k = ''Language''
      then s\<lparr>Settings_values := (Settings_values s)\<lparr>language_index := wtoi v\<rparr>\<rparr>
      else if k = ''Region''
      then s\<lparr>Settings_values := (Settings_values s)\<lparr>region_index := wtoi v\<rparr>\<rparr>
      else if k = ''CustomRTC''
      then s\<lparr>Settings_values := (Settings_values s)\<lparr>custom_rtc_enabled := (wtoi v \<noteq> 0)\<rparr>\<rparr>
      else if k = ''MultiCore''
      then s\<lparr>Settings_values := (Settings_values s)\<lparr>use_multi_core := (wtoi v \<noteq> 0)\<rparr>\<rparr>
      else if k = ''MemoryLayout''
      then s\<lparr>Settings_values := (Settings_values s)\<lparr>memory_layout_mode := wtoi v\<rparr>\<rparr>
      else if k = ''GamePath'' then s\<lparr>g_UserGamePaths := g_UserGamePaths s @ [v]\<rparr>
      else s)"
proof -
  let ?line = "k @ CHR ''='' # v"
  have hd: "hd ?line = hd k" using assms(1) by simp
  have "\<not> is_blank (last ?line)"
  proof (cases "v = []")
    case True
    then show ?thesis by (simp add: is_blank_def)
  next
    case False
    with Trim_fixed(2) [OF assms(6)] show ?thesis by simp
  qed
  with hd assms(2) have t: "Trim ?line = ?line" by (intro Trim_clean) simp_all
  have f: "find_char (CHR ''='') ?line = Some (length k)"
    using assms(5) by (rule find_char_first)
  have k: "Trim (take (length k) ?line) = k"
    using assms(1-3) by (simp add: Trim_clean)
  have v: "Trim (drop (length k + 1) ?line) = v"
    using assms(6) by simp
  have "?line \<noteq> []" by simp
  with hd assms(4) show ?thesis
    unfolding LoadLine_def t f Let_def option.case k v by simp
qed

lemma LoadLine_skip:
  "LoadLine s [] = s" "LoadLine s ''[System]'' = s" "LoadLine s ''[Paths]'' = s"
  by (simp_all add: LoadLine_def Trim_def is_blank_def)

lemma LoadLine_number:
  assumes "INT_MIN \<le> i" and "i \<le> INT_MAX"
  shows "LoadLine s (''Language='' @ show_int i) =
           s\<lparr>Settings_values := (Settings_values s)\<lparr>language_index := i\<rparr>\<rparr>"
    and "LoadLine s (''Region='' @ show_int i) =
           s\<lparr>Settings_values := (Settings_values s)\<lparr>region_index := i\<rparr>\<rparr>"
    and "LoadLine s (''CustomRTC='' @ show_int i) =
           s\<lparr>Settings_values := (Settings_values s)\<lparr>custom_rtc_enabled := (i \<noteq> 0)\<rparr>\<rparr>"
    and "LoadLine s (''MultiCore='' @ show_int i) =
           s\<lparr>Settings_values := (Settings_values s)\<lparr>use_multi_core := (i \<noteq> 0)\<rparr>\<rparr>"
    and "LoadLine s (''MemoryLayout='' @ show_int i) =
           s\<lparr>Settings_values := (Settings_values s)\<lparr>memory_layout_mode := i\<rparr>\<rparr>"
proof -
  have "\<not> is_blank (hd (show_int i))"
    using hd_digits_digit iswdigit_not_sign by (auto simp: show_int_def is_blank_def)
  with show_int_clean(1,2) [of i] have tv: "Trim (show_int i) = show_int i"
    by (intro Trim_clean)
  note w = wtoi_show_int [OF assms]
  show "LoadLine s (''Language='' @ show_int i) =
           s\<lparr>Settings_values := (Settings_values s)\<lparr>language_index := i\<rparr>\<rparr>"
    using LoadLine_assign [of "''Language''" "show_int i" s] tv w by (simp add: is_blank_def)
  show "LoadLine s (''Region='' @ show_int i) =
           s\<lparr>Settings_values := (Settings_values s)\<lparr>region_index := i\<rparr>\<rparr>"
    using LoadLine_assign [of "''Region''" "show_int i" s] tv w by (simp add: is_blank_def)
  show "LoadLine s (''CustomRTC='' @ show_int i) =
           s\<lparr>Settings_values := (Settings_values s)\<lparr>custom_rtc_enabled := (i \<noteq> 0)\<rparr>\<rparr>"
    using LoadLine_assign [of "''CustomRTC''" "show_int i" s] tv w by (simp add: is_blank_def)
  show "LoadLine s (''MultiCore='' @ show_int i) =
           s\<lparr>Settings_values := (Settings_values s)\<lparr>use_multi_core := (i \<noteq> 0)\<rparr>\<rparr>"
    using LoadLine_assign [of "''MultiCore''" "show_int i" s] tv w by (simp add: is_blank_def)
  show "LoadLine s (''MemoryLayout='' @ show_int i) =
           s\<lparr>Settings_values := (Settings_values s)\<lparr>memory_layout_mode := i\<rparr>\<rparr>"
    using LoadLine_assign [of "''MemoryLayout''" "show_int i" s] tv w
    by (simp add: is_blank_def)
qed

lemma LoadLine_path:
  "Trim p = p \<Longrightarrow>
   LoadLine s (''GamePath='' @ p) = s\<lparr>g_UserGamePaths := g_UserGamePaths s @ [p]\<rparr>"
  using LoadLine_assign [of "''GamePath''" p s] by (simp add: is_blank_def)

lemma LoadLine_paths:
  "\<forall>p \<in> set ps. Trim p = p \<Longrightarrow>
   foldl LoadLine s (map (\<lambda>p. ''GamePath='' @ p) ps) =
     s\<lparr>g_UserGamePaths := g_UserGamePaths s @ ps\<rparr>"
proof (induction ps arbitrary: s)
  case Nil
  then show ?case by simp
next
  case (Cons p ps)
  then have "Trim p = p" and "\<forall>p \<in> set ps. Trim p = p" by simp_all
  with Cons.IH [of "s\<lparr>g_UserGamePaths := g_UserGamePaths s @ [p]\<rparr>"]
  show ?case by (simp add: LoadLine_path del: append_Cons)
qed

subsection \<open>Configuration store: save, then load\<close>

lemma config_text_lines:
  "config_text s =
     concat (map (\<lambda>l. l @ endl)
       ([''[System]'',
         ''Language='' @ show_int (language_index (Settings_values s)),
         ''Region='' @ show_int (region_index (Settings_values s)),
         ''CustomRTC='' @ show_int (if custom_rtc_enabled (Settings_values s) then 1 else 0),
         ''MultiCore='' @ show_int (if use_multi_core (Settings_values s) then 1 else 0),
         ''MemoryLayout='' @ show_int (memory_layout_mode (Settings_values s)),
         [], ''[Paths]''] @
        map (\<lambda>p. ''GamePath='' @ p) (g_UserGamePaths s)))"
  by (simp add: config_text_def Let_def o_def)

lemma getlines_config_text:
  assumes "\<forall>p \<in> set (g_UserGamePaths s). CHR 0x0A \<notin> set p"
  shows "getlines [] (config_text s) =
       [''[System]'',
         ''Language='' @ show_int (language_index (Settings_values s)),
         ''Region='' @ show_int (region_index (Settings_values s)),
         ''CustomRTC='' @ show_int (if custom_rtc_enabled (Settings_values s) then 1 else 0),
         ''MultiCore='' @ show_int (if use_multi_core (Settings_values s) then 1 else 0),
         ''MemoryLayout='' @ show_int (memory_layout_mode (Settings_values s)),
         [], ''[Paths]''] @
        map (\<lambda>p. ''GamePath='' @ p) (g_UserGamePaths s)"
  unfolding config_text_lines
  by (rule getlines_lines) (use assms in \<open>auto simp: show_int_clean(3)\<close>)

lemma load_head:
  assumes "INT_MIN \<le> l" and "l \<le> INT_MAX" and "INT_MIN \<le> r" and "r \<le> INT_MAX"
    and "INT_MIN \<le> m" and "m \<le> INT_MAX"
  shows "foldl LoadLine s1
       [''[System]'', ''Language='' @ show_int l, ''Region='' @ show_int r,
        ''CustomRTC='' @ show_int (if c then 1 else 0),
        ''MultiCore='' @ show_int (if u then 1 else 0),
        ''MemoryLayout='' @ show_int m, [], ''[Paths]''] =
     s1\<lparr>Settings_values := (Settings_values s1)
          \<lparr>language_index := l, region_index := r, custom_rtc_enabled := c,
           use_multi_core := u, memory_layout_mode := m\<rparr>\<rparr>"
proof -
  have flag: "INT_MIN \<le> (if b then 1 else 0)" "(if b then 1 else 0) \<le> INT_MAX" for b
    by (simp_all add: INT_MIN_def INT_MAX_def)
  show ?thesis
    by (simp only: foldl_Cons foldl_Nil LoadLine_skip LoadLine_number [OF assms(1,2)]
        LoadLine_number [OF assms(3,4)] LoadLine_number [OF assms(5,6)]
        LoadLine_number [OF flag]) simp
qed

lemma load_settings_lines:
  assumes "INT_MIN \<le> language_index (Settings_values s)"
    and "language_index (Settings_values s) \<le> INT_MAX"
    and "INT_MIN \<le> region_index (Settings_values s)"
    and "region_index (Settings_values s) \<le> INT_MAX"
    and "INT_MIN \<le> memory_layout_mode (Settings_values s)"
    and "memory_layout_mode (Settings_values s) \<le> INT_MAX"
    and "\<forall>p \<in> set (g_UserGamePaths s). CHR 0x0A \<notin> set p"
  shows "LoadSettings (Some (config_text s)) s0 =
     foldl LoadLine
       (s0\<lparr>g_UserGamePaths := [],
           Settings_values := (Settings_values s0)
             \<lparr>language_index := language_index (Settings_values s),
              region_index := region_index (Settings_values s),
              custom_rtc_enabled := custom_rtc_enabled (Settings_values s),
              use_multi_core := use_multi_core (Settings_values s),
              memory_layout_mode := memory_layout_mode (Settings_values s)\<rparr>\<rparr>)
       (map (\<lambda>p. ''GamePath='' @ p) (g_UserGamePaths s))"
proof -
  have "s0\<lparr>g_UserGamePaths := [],
           Settings_values := (Settings_values s0)
             \<lparr>language_index := language_index (Settings_values s),
              region_index := region_index (Settings_values s),
              custom_rtc_enabled := custom_rtc_enabled (Settings_values s),
              use_multi_core := use_multi_core (Settings_values s),
              memory_layout_mode := memory_layout_mode (Settings_values s)\<rparr>\<rparr> =
        (s0\<lparr>g_UserGamePaths := []\<rparr>)\<lparr>Settings_values :=
           (Settings_values (s0\<lparr>g_UserGamePaths := []\<rparr>))
             \<lparr>language_index := language_index (Settings_values s),
              region_index := region_index (Settings_values s),
              custom_rtc_enabled := custom_rtc_enabled (Settings_values s),
              use_multi_core := use_multi_core (Settings_values s),
              memory_layout_mode := memory_layout_mode (Settings_values s)\<rparr>\<rparr>"
    by simp
  then show ?thesis
    by (simp only: LoadSettings_def option.case getlines_config_text [OF assms(7)] foldl_append
        load_head [OF assms(1-6)])
qed

lemma load_config_text:
  assumes "INT_MIN \<le> language_index (Settings_values s)"
    and "language_index (Settings_values s) \<le> INT_MAX"
    and "INT_MIN \<le> region_index (Settings_values s)"
    and "region_index (Settings_values s) \<le> INT_MAX"
    and "INT_MIN \<le> memory_layout_mode (Settings_values s)"
    and "memory_layout_mode (Settings_values s) \<le> INT_MAX"
    and "\<forall>p \<in> set (g_UserGamePaths s). Trim p = p \<and> CHR 0x0A \<notin> set p"
  shows "LoadSettings (Some (config_text s)) s0 =
     s0\<lparr>g_UserGamePaths := g_UserGamePaths s,
        Settings_values := (Settings_values s0)
          \<lparr>language_index := language_index (Settings_values s),
           region_index := region_index (Settings_values s),
           custom_rtc_enabled := custom_rtc_enabled (Settings_values s),
           use_multi_core := use_multi_core (Settings_values s),
           memory_layout_mode := memory_layout_mode (Settings_values s)\<rparr>\<rparr>"
proof -
  from assms(7) have nl: "\<forall>p \<in> set (g_UserGamePaths s). CHR 0x0A \<notin> set p"
    and tr: "\<forall>p \<in> set (g_UserGamePaths s). Trim p = p" by simp_all
  show ?thesis
    by (simp only: load_settings_lines [OF assms(1-6) nl] LoadLine_paths [OF tr]) simp
qed

lemma unique_paths_subset: "set (unique_paths ps) \<subseteq> set ps"
  by (induction ps rule: unique_paths.induct) auto

lemma unique_paths_keys: "path_key ` set (unique_paths ps) = path_key ` set ps"
  by (induction ps rule: unique_paths.induct) auto

lemma unique_paths_strict:
  "sorted (map path_key ps) \<Longrightarrow>
   sorted_wrt (\<lambda>p q. path_key p < path_key q) (unique_paths ps)"
proof (induction ps rule: unique_paths.induct)
  case 1
  then show ?case by simp
next
  case (2 p)
  then show ?case by simp
next
  case (3 p q ps)
  show ?case
  proof (cases "path_key p = path_key q")
    case True
    with 3 show ?thesis by simp
  next
    case False
    from 3(3) have le: "path_key p \<le> path_key q" "\<forall>x \<in> set ps. path_key q \<le> path_key x"
      and rest: "sorted (map path_key (q # ps))" by simp_all
    from le False have "\<forall>x \<in> set (q # ps). path_key p < path_key x" by fastforce
    with unique_paths_subset [of "q # ps"]
    have "\<forall>x \<in> set (unique_paths (q # ps)). path_key p < path_key x" by blast
    with 3(2) [OF False rest] False show ?thesis by simp
  qed
qed

text \<open>
  Claim C4, as the code has it. Let the three enumerated settings be values of an \<open>int\<close>,
  and let no search path contain a line feed or begin or end with a blank. Then
  SaveSettings, when the file opens, writes the text of the state it leaves, whose path
  list is the saved one sorted in the order of paths with one entry for the paths that are
  equal; and LoadSettings of that text, into any state, sets the five settings to the
  saved ones and the path list to that list. Every path of that list is one of the saved
  paths, every saved path is equal, as a path, to one of them, and the list is strictly
  increasing in the order of paths.
\<close>

theorem save_load_roundtrip:
  assumes "INT_MIN \<le> language_index (Settings_values s)"
    and "language_index (Settings_values s) \<le> INT_MAX"
    and "INT_MIN \<le> region_index (Settings_values s)"
    and "region_index (Settings_values s) \<le> INT_MAX"
    and "INT_MIN \<le> memory_layout_mode (Settings_values s)"
    and "memory_layout_mode (Settings_values s) \<le> INT_MAX"
    and "\<forall>p \<in> set (g_UserGamePaths s). Trim p = p \<and> CHR 0x0A \<notin> set p"
  shows "snd (SaveSettings True s) = [WriteConfig (config_text (fst (SaveSettings True s)))]
     \<and> LoadSettings (Some (config_text (fst (SaveSettings True s)))) s0 =
         s0\<lparr>g_UserGamePaths := unique_paths (sort_key path_key (g_UserGamePaths s)),
            Settings_values := (Settings_values s0)
              \<lparr>language_index := language_index (Settings_values s),
               region_index := region_index (Settings_values s),
               custom_rtc_enabled := custom_rtc_enabled (Settings_values s),
               use_multi_core := use_multi_core (Settings_values s),
               memory_layout_mode := memory_layout_mode (Settings_values s)\<rparr>\<rparr>
     \<and> set (unique_paths (sort_key path_key (g_UserGamePaths s))) \<subseteq> set (g_UserGamePaths s)
     \<and> path_key ` set (unique_paths (sort_key path_key (g_UserGamePaths s))) =
         path_key ` set (g_UserGamePaths s)
     \<and> sorted_wrt (\<lambda>p q. path_key p < path_key q)
         (unique_paths (sort_key path_key (g_UserGamePaths s)))"
proof -
  let ?ps = "unique_paths (sort_key path_key (g_UserGamePaths s))"
  let ?s' = "s\<lparr>g_UserGamePaths := ?ps\<rparr>"
  have save: "SaveSettings True s = (?s', [WriteConfig (config_text ?s')])"
    by (simp add: SaveSettings_def Let_def)
  have sub: "set ?ps \<subseteq> set (g_UserGamePaths s)"
    using unique_paths_subset [of "sort_key path_key (g_UserGamePaths s)"] by simp
  have keys: "path_key ` set ?ps = path_key ` set (g_UserGamePaths s)"
    using unique_paths_keys [of "sort_key path_key (g_UserGamePaths s)"] by simp
  have strict: "sorted_wrt (\<lambda>p q. path_key p < path_key q) ?ps"
    by (rule unique_paths_strict) (rule sorted_sort_key)
  have "\<forall>p \<in> set (g_UserGamePaths ?s'). Trim p = p \<and> CHR 0x0A \<notin> set p"
    using assms(7) sub by auto
  with assms(1-6) have "LoadSettings (Some (config_text ?s')) s0 =
     s0\<lparr>g_UserGamePaths := g_UserGamePaths ?s',
        Settings_values := (Settings_values s0)
          \<lparr>language_index := language_index (Settings_values ?s'),
           region_index := region_index (Settings_values ?s'),
           custom_rtc_enabled := custom_rtc_enabled (Settings_values ?s'),
           use_multi_core := use_multi_core (Settings_values ?s'),
           memory_layout_mode := memory_layout_mode (Settings_values ?s')\<rparr>\<rparr>"
    by (intro load_config_text) simp_all
  with save sub keys strict show ?thesis by simp
qed

theorem save_load_roundtrip_witness:
  "list_all (\<lambda>p. Trim p = p \<and> CHR 0x0A \<notin> set p) (g_UserGamePaths configured)
   \<and> LoadSettings (Some (config_text (fst (SaveSettings True configured))))
       (startup example_values) =
     configured\<lparr>g_UserGamePaths := [''E:/Games/x'', ''E:/Games-2'']\<rparr>"
proof -
  have h: "INT_MIN \<le> language_index (Settings_values configured)"
    "language_index (Settings_values configured) \<le> INT_MAX"
    "INT_MIN \<le> region_index (Settings_values configured)"
    "region_index (Settings_values configured) \<le> INT_MAX"
    "INT_MIN \<le> memory_layout_mode (Settings_values configured)"
    "memory_layout_mode (Settings_values configured) \<le> INT_MAX"
    "\<forall>p \<in> set (g_UserGamePaths configured). Trim p = p \<and> CHR 0x0A \<notin> set p"
    by (simp_all add: configured_def startup_def example_values_def INT_MIN_def INT_MAX_def
        Trim_def is_blank_def)
  have ps: "unique_paths (sort_key path_key [''E:/Games-2'', ''E:/Games/x'', ''E://Games/x'']) =
      [''E:/Games/x'', ''E:/Games-2'']"
    by (simp add: path_eval Let_def)
  have paths: "g_UserGamePaths configured = [''E:/Games-2'', ''E:/Games/x'', ''E://Games/x'']"
    and vals: "Settings_values configured =
      example_values\<lparr>language_index := 17, region_index := 5, custom_rtc_enabled := True,
        use_multi_core := False, memory_layout_mode := 1\<rparr>"
    by (simp_all add: configured_def startup_def)
  note r = save_load_roundtrip [OF h, of "startup example_values", THEN conjunct2,
      THEN conjunct1, unfolded paths ps vals]
  have "list_all (\<lambda>p. Trim p = p \<and> CHR 0x0A \<notin> set p) (g_UserGamePaths configured)"
    using h(7) by (simp add: list_all_iff)
  moreover have "LoadSettings (Some (config_text (fst (SaveSettings True configured))))
       (startup example_values) =
     configured\<lparr>g_UserGamePaths := [''E:/Games/x'', ''E:/Games-2'']\<rparr>"
    unfolding r by (simp add: configured_def startup_def example_values_def)
  ultimately show ?thesis by (rule conjI)
qed

text \<open>
  Claim C4 as stated fails on a search path that ends in a blank: the path is written as
  it is, and LoadSettings trims it, so the loaded path set is not the saved one.
\<close>

theorem save_load_roundtrip_counterexample:
  "g_UserGamePaths (LoadSettings (Some (config_text (fst (SaveSettings True trailing_blank))))
       (startup example_values)) = [''E:'' @ sep # ''Roms'']
   \<and> g_UserGamePaths trailing_blank = [''E:'' @ sep # ''Roms '']
   \<and> set (g_UserGamePaths (LoadSettings
       (Some (config_text (fst (SaveSettings True trailing_blank))))
       (startup example_values))) \<noteq> set (g_UserGamePaths trailing_blank)"
proof -
  have saved: "fst (SaveSettings True trailing_blank) = trailing_blank"
    by (simp add: SaveSettings_def trailing_blank_def Let_def)
  have paths: "g_UserGamePaths trailing_blank = [''E:'' @ sep # ''Roms '']"
    by (simp add: trailing_blank_def startup_def)
  have range: "INT_MIN \<le> language_index (Settings_values trailing_blank)"
    "language_index (Settings_values trailing_blank) \<le> INT_MAX"
    "INT_MIN \<le> region_index (Settings_values trailing_blank)"
    "region_index (Settings_values trailing_blank) \<le> INT_MAX"
    "INT_MIN \<le> memory_layout_mode (Settings_values trailing_blank)"
    "memory_layout_mode (Settings_values trailing_blank) \<le> INT_MAX"
    "\<forall>p \<in> set (g_UserGamePaths trailing_blank). CHR 0x0A \<notin> set p"
    by (simp_all add: trailing_blank_def startup_def example_values_def INT_MIN_def
        INT_MAX_def sep_def)
  have line: "LoadLine s (''GamePath='' @ ''E:'' @ sep # ''Roms '') =
      s\<lparr>g_UserGamePaths := g_UserGamePaths s @ [''E:'' @ sep # ''Roms'']\<rparr>" for s
    by (simp add: LoadLine_def Trim_def is_blank_def sep_def find_char_def)
  have "g_UserGamePaths (LoadSettings (Some (config_text trailing_blank))
       (startup example_values)) = [''E:'' @ sep # ''Roms'']"
    by (simp only: load_settings_lines [OF range] paths list.map foldl_Cons foldl_Nil line)
       simp
  with saved paths show ?thesis by (simp add: sep_def)
qed

end
